theory Spec2Isabelle
  imports Main "HOL-Library.Char_ord" "HOL-Library.List_Lexorder"
begin

section \<open>Strings: the functions of Go's \<open>strings\<close> and \<open>fmt\<close> packages that the program calls\<close>

text \<open>
  A Go string is a sequence of bytes; \<^typ>\<open>string\<close> is a list of 8-bit characters.

  \<^verbatim>\<open>strings.ReplaceAll(s, " ", "")\<close> deletes every space character (and nothing else: tabs and
  newlines stay).
\<close>

definition remove_spaces :: "string \<Rightarrow> string" where
  "remove_spaces s = filter (\<lambda>c. c \<noteq> CHR '' '') s"

text \<open>
  \<^verbatim>\<open>strings.Split(s, sep)\<close> for a one-byte separator: the pieces between the occurrences of
  the separator, so always one piece more than there are separators (never the empty list).
\<close>

fun split_on :: "char \<Rightarrow> string \<Rightarrow> string list" where
  "split_on sep [] = [[]]"
| "split_on sep (c # cs) =
     (case split_on sep cs of
        [] \<Rightarrow> [[c]]
      | piece # pieces \<Rightarrow> if c = sep then [] # piece # pieces else (c # piece) # pieces)"

text \<open>
  \<^verbatim>\<open>strings.ToLower\<close>. On ASCII bytes it maps \<open>A..Z\<close> to \<open>a..z\<close>. A byte outside ASCII is left
  as it is here; Go lower-cases the code point, and no code point outside ASCII has one of the
  letters of \<open>true\<close> as its lower case, so the comparison with \<open>"true"\<close> in \<open>main\<close> is the same.
\<close>

definition to_lower_char :: "char \<Rightarrow> char" where
  "to_lower_char c =
     (case map_of (zip ''ABCDEFGHIJKLMNOPQRSTUVWXYZ'' ''abcdefghijklmnopqrstuvwxyz'') c of
        None \<Rightarrow> c
      | Some l \<Rightarrow> l)"

definition ToLower :: "string \<Rightarrow> string" where
  "ToLower s = map to_lower_char s"

text \<open>\<^verbatim>\<open>strings.Join(elems, sep)\<close>.\<close>

fun Join_strings :: "string list \<Rightarrow> string \<Rightarrow> string" where
  "Join_strings [] sep = []"
| "Join_strings [x] sep = x"
| "Join_strings (x # y # ys) sep = x @ sep @ Join_strings (y # ys) sep"


section \<open>Paths: \<open>filepath.Join\<close> and \<open>filepath.Clean\<close> of Go's standard library, on Unix\<close>

text \<open>
  \<open>Clean\<close> works on the elements of a path, the pieces between slashes. Empty elements and
  \<open>.\<close> are dropped. An element \<open>..\<close> removes the element before it; where there is none, it
  is dropped in a rooted path and kept (as a leading \<open>..\<close>) in a relative one. The state of
  the scan is the number of leading \<open>..\<close> elements written so far and the elements after them.
\<close>

definition rooted :: "string \<Rightarrow> bool" where
  "rooted p = (case p of [] \<Rightarrow> False | c # _ \<Rightarrow> c = CHR ''/'')"

definition path_elems :: "string \<Rightarrow> string list" where
  "path_elems p = filter (\<lambda>e. e \<noteq> [] \<and> e \<noteq> ''.'') (split_on CHR ''/'' p)"

definition clean_step :: "bool \<Rightarrow> nat \<times> string list \<Rightarrow> string \<Rightarrow> nat \<times> string list" where
  "clean_step r st e =
     (case st of (dotdot, out) \<Rightarrow>
        if e = ''..'' then
          (if out \<noteq> [] then (dotdot, butlast out)
           else if \<not> r then (Suc dotdot, out)
           else (dotdot, out))
        else (dotdot, out @ [e]))"

definition Clean :: "string \<Rightarrow> string" where
  "Clean p =
     (if p = [] then ''.''
      else
        (case foldl (clean_step (rooted p)) (0, []) (path_elems p) of (dotdot, out) \<Rightarrow>
           let es = replicate dotdot ''..'' @ out in
           if rooted p then ''/'' @ Join_strings es ''/''
           else if es = [] then ''.''
           else Join_strings es ''/''))"

text \<open>
  \<^verbatim>\<open>filepath.Join(a, b)\<close>: the elements from the first non-empty one on are joined with a slash
  and cleaned; the result is empty when both are empty.
\<close>

definition Join :: "string \<Rightarrow> string \<Rightarrow> string" where
  "Join a b =
     (if a \<noteq> [] then Clean (a @ ''/'' @ b)
      else if b \<noteq> [] then Clean b
      else [])"

section \<open>The process and its surroundings\<close>

text \<open>
  The program reads environment variables, asks the file system whether a file exists, runs
  external commands and walks a directory. Everything outside the process is a world of an
  arbitrary type \<open>'w\<close>, reached through the operations of an \<open>os_iface\<close>; a theorem about all
  interfaces holds whatever the tools do.
\<close>

record environment =
  INPUT_PLATFORMS :: string
  INPUT_PACKAGE :: string
  INPUT_COMPRESS :: string
  INPUT_DEST :: string
  INPUT_LDFLAGS :: string
  INPUT_NAME :: string
  GITHUB_WORKSPACE :: string
  Environ :: "string list"

text \<open>
  An \<^verbatim>\<open>exec.Cmd\<close>: program, arguments, working directory (\<open>Dir\<close>, empty for the directory of
  the process) and environment (\<open>Env\<close>, \<open>None\<close> for the environment of the process).
\<close>

record command =
  cmd_name :: string
  cmd_args :: "string list"
  cmd_dir :: string
  cmd_env :: "string list option"

definition Command :: "string \<Rightarrow> string list \<Rightarrow> command" where
  "Command name args = \<lparr>cmd_name = name, cmd_args = args, cmd_dir = [], cmd_env = None\<rparr>"

text \<open>The error of \<^verbatim>\<open>os.Stat\<close>, and \<^verbatim>\<open>os.IsNotExist\<close> on it.\<close>

datatype stat_error = ErrNotExist | ErrOther

definition IsNotExist :: "stat_error \<Rightarrow> bool" where
  "IsNotExist err = (err = ErrNotExist)"

text \<open>
  What \<^verbatim>\<open>filepath.Walk\<close> finds at a path: nothing it can \<open>Lstat\<close> (\<open>Broken\<close>), a file, a
  directory with its entries in the order \<open>ReadDir\<close> sorts them, or a directory whose entries
  cannot be read (\<open>Unreadable\<close>).
\<close>

datatype fnode = File | Dir "(string \<times> fnode) list" | Unreadable | Broken

record 'w os_iface =
  os_getwd :: "'w \<Rightarrow> string"
  os_stat :: "'w \<Rightarrow> string \<Rightarrow> stat_error option"
  os_run :: "command \<Rightarrow> 'w \<Rightarrow> bool \<times> 'w"
  os_tree :: "'w \<Rightarrow> string \<Rightarrow> fnode"

text \<open>
  \<open>os_run c w\<close> runs a command to its end: the flag is true when \<open>Run\<close> (or \<open>Output\<close>) returns
  no error, that is when the command started and exited with status 0.

  The state of a run is the world and the commands run so far. A step returns a value or
  the reason of the fatal exit; the state at the exit is kept, since what the tools have
  written stays on disk.
\<close>

record 'w pstate =
  world :: 'w
  trace :: "command list"

datatype failure =
  BuildFailed | CopyFailed | CompressionFailed | CleanupFailed | Md5Failed
  | LsFailed | WalkFailed | IndexOutOfRange

text \<open>\<^verbatim>\<open>os.Exit(1)\<close> after each printed error; a run-time panic exits with status 2.\<close>

definition exit_status :: "failure \<Rightarrow> nat" where
  "exit_status f = (if f = IndexOutOfRange then 2 else 1)"

type_synonym ('w, 'a) step = "'w pstate \<Rightarrow> (failure + 'a) \<times> 'w pstate"

definition seq :: "('w, 'a) step \<Rightarrow> ('a \<Rightarrow> ('w, 'b) step) \<Rightarrow> ('w, 'b) step" where
  "seq m f s = (case m s of (Inl e, s') \<Rightarrow> (Inl e, s') | (Inr a, s') \<Rightarrow> f a s')"

definition run_cmd :: "'w os_iface \<Rightarrow> command \<Rightarrow> 'w pstate \<Rightarrow> bool \<times> 'w pstate" where
  "run_cmd os c s =
     (case os_run os c (world s) of (ok, w') \<Rightarrow> (ok, \<lparr>world = w', trace = trace s @ [c]\<rparr>))"

definition run_or_exit :: "'w os_iface \<Rightarrow> command \<Rightarrow> failure \<Rightarrow> ('w, unit) step" where
  "run_or_exit os c f s =
     (case run_cmd os c s of (ok, s') \<Rightarrow> if ok then (Inr (), s') else (Inl f, s'))"


section \<open>The program: \<open>entrypoint.go\<close>\<close>

subsection \<open>\<open>fileExists\<close> and \<open>copyFile\<close>\<close>

text \<open>
  \<open>fileExists\<close> joins the working directory (the error of \<open>Getwd\<close> is dropped) and the path
  and stats the result. On an error it returns \<open>!os.IsNotExist(err)\<close>, otherwise true.
\<close>

definition fileExists :: "'w os_iface \<Rightarrow> string \<Rightarrow> 'w \<Rightarrow> bool" where
  "fileExists os path w =
     (let cwd = os_getwd os w;
          absPath = Join cwd path
      in case os_stat os w absPath of
           Some err \<Rightarrow> \<not> IsNotExist err
         | None \<Rightarrow> True)"

definition copyFile :: "'w os_iface \<Rightarrow> string \<Rightarrow> string \<Rightarrow> ('w, unit) step" where
  "copyFile os src dest = run_or_exit os (Command ''cp'' [src, dest]) CopyFailed"

subsection \<open>\<open>build\<close>\<close>

text \<open>A Go map read at a missing key gives the zero value, the empty string.\<close>

definition map_get :: "(string \<rightharpoonup> string) \<Rightarrow> string \<Rightarrow> string" where
  "map_get m k = (case m k of None \<Rightarrow> [] | Some v \<Rightarrow> v)"

text \<open>The local variables of \<open>build\<close>, in the order the source computes them.\<close>

definition buildFileName :: "string \<Rightarrow> string \<Rightarrow> string \<Rightarrow> bool \<Rightarrow> string" where
  "buildFileName inputName platformKernel platformArch compress =
     (let name0 = inputName @ ''-'' @ platformKernel @ ''-'' @ platformArch;
          name1 = (if compress then inputName else name0)
      in if platformKernel = ''windows'' then name1 @ ''.exe'' else name1)"

definition packagePath :: "string \<Rightarrow> string" where
  "packagePath packageName = (if packageName = [] then ''.'' else ''./'' @ packageName)"

definition buildCmd :: "environment \<Rightarrow> string \<Rightarrow> string \<Rightarrow> string \<Rightarrow> string \<Rightarrow> string \<Rightarrow> command" where
  "buildCmd env ldflags buildFilePath pkgPath platformKernel platformArch =
     (Command ''go''
        [''build'', ''-buildmode'', ''exe'', ''-ldflags'', ldflags, ''-o'', buildFilePath, pkgPath])
     \<lparr>cmd_env := Some (Environ env @ [''GOOS='' @ platformKernel, ''GOARCH='' @ platformArch])\<rparr>"

definition gzFileName :: "string \<Rightarrow> string \<Rightarrow> string \<Rightarrow> string" where
  "gzFileName inputName platformKernel platformArch =
     inputName @ ''-'' @ platformKernel @ ''-'' @ platformArch @ ''.tar.gz''"

definition tarCmd :: "string \<Rightarrow> string \<Rightarrow> string list \<Rightarrow> command" where
  "tarCmd destDirPath gz includeFiles =
     (Command ''tar'' ([''-cvzf'', gz] @ includeFiles)) \<lparr>cmd_dir := destDirPath\<rparr>"

definition cleanCmd :: "string \<Rightarrow> string list \<Rightarrow> command" where
  "cleanCmd destDirPath includeFiles =
     (Command ''rm'' ([''-f''] @ includeFiles)) \<lparr>cmd_dir := destDirPath\<rparr>"

text \<open>
  The command kept in the variable \<open>md5Cmd\<close>. The \<open>Sprintf\<close> format has no verb, so its
  result is the format itself, single quotes included.
\<close>

definition md5Cmd :: "string \<Rightarrow> command" where
  "md5Cmd destDirPath =
     (Command ''/bin/sh'' [''-c'', [CHR 0x27] @ ''pwd && ls -la'' @ [CHR 0x27]])
     \<lparr>cmd_dir := destDirPath\<rparr>"

text \<open>
  The source has the same three lines for \<open>README.md\<close> and for \<open>LICENSE\<close>: when the file
  exists, copy it into the destination directory and append its name to \<open>includeFiles\<close>.
\<close>

definition stage_file :: "'w os_iface \<Rightarrow> string \<Rightarrow> string \<Rightarrow> string list \<Rightarrow> ('w, string list) step" where
  "stage_file os destDirPath name includeFiles s =
     (if fileExists os name (world s)
      then seq (copyFile os name (Join destDirPath name)) (\<lambda>_ s'. (Inr (includeFiles @ [name]), s')) s
      else (Inr includeFiles, s))"

definition build ::
  "'w os_iface \<Rightarrow> environment \<Rightarrow> string \<Rightarrow> string \<Rightarrow> (string \<rightharpoonup> string) \<Rightarrow> string \<Rightarrow> bool
     \<Rightarrow> ('w, unit) step" where
  "build os env packageName destDir platform ldflags compress =
     (let platformKernel = map_get platform ''kernel'';
          platformArch = map_get platform ''arch'';
          inputName = INPUT_NAME env;
          fileName = buildFileName inputName platformKernel platformArch compress;
          workspaceDir = GITHUB_WORKSPACE env;
          destDirPath = Join workspaceDir destDir;
          buildFilePath = Join destDirPath fileName;
          pkgPath = packagePath packageName
      in
      seq (run_or_exit os
             (buildCmd env ldflags buildFilePath pkgPath platformKernel platformArch) BuildFailed)
        (\<lambda>_.
          if compress then
            (let gz = gzFileName inputName platformKernel platformArch in
             seq (stage_file os destDirPath ''README.md'' [fileName]) (\<lambda>includeFiles.
             seq (stage_file os destDirPath ''LICENSE'' includeFiles) (\<lambda>includeFiles.
             seq (run_or_exit os (tarCmd destDirPath gz includeFiles) CompressionFailed) (\<lambda>_.
             seq (run_or_exit os (cleanCmd destDirPath includeFiles) CleanupFailed) (\<lambda>_.
             run_or_exit os (md5Cmd destDirPath) Md5Failed)))))
          else (\<lambda>s. (Inr (), s))))"

subsection \<open>\<open>filepath.Walk\<close>\<close>

text \<open>
  The walk (as in the standard library since Go 1.12) calls the function on the root, then on
  the entries of each directory in order. The function gets the path and the error met there,
  if any, and returns no error (\<open>nil\<close>), \<open>SkipDir\<close> or an error; an error stops the walk and
  is the result of \<open>Walk\<close>. When a directory cannot be read or a path cannot be \<open>Lstat\<close>ed,
  the function is called with that error and its return value decides: the walk itself adds
  no error.
\<close>

datatype walk_error = LstatError | ReadDirError

datatype walk_return = NoError | SkipDir | Err walk_error

type_synonym 'a walk_fn = "string \<Rightarrow> walk_error option \<Rightarrow> 'a \<Rightarrow> walk_return \<times> 'a"

definition is_dir :: "fnode \<Rightarrow> bool" where
  "is_dir n = (case n of Dir _ \<Rightarrow> True | Unreadable \<Rightarrow> True | _ \<Rightarrow> False)"

fun walk :: "'a walk_fn \<Rightarrow> string \<Rightarrow> fnode \<Rightarrow> 'a \<Rightarrow> walk_return \<times> 'a"
  and walk_entries :: "'a walk_fn \<Rightarrow> string \<Rightarrow> (string \<times> fnode) list \<Rightarrow> 'a \<Rightarrow> walk_return \<times> 'a"
where
  "walk fn path File acc = fn path None acc"
| "walk fn path Broken acc = fn path (Some LstatError) acc"
| "walk fn path Unreadable acc = fn path (Some ReadDirError) acc"
| "walk fn path (Dir es) acc =
     (case fn path None acc of
        (NoError, acc') \<Rightarrow> walk_entries fn path es acc'
      | (r, acc') \<Rightarrow> (r, acc'))"
| "walk_entries fn path [] acc = (NoError, acc)"
| "walk_entries fn path (e # es) acc =
     (case walk fn (Join path (fst e)) (snd e) acc of
        (NoError, acc') \<Rightarrow> walk_entries fn path es acc'
      | (SkipDir, acc') \<Rightarrow>
          if is_dir (snd e) \<or> snd e = Broken then walk_entries fn path es acc'
          else (SkipDir, acc')
      | (Err x, acc') \<Rightarrow> (Err x, acc'))"

definition Walk :: "fnode \<Rightarrow> string \<Rightarrow> 'a walk_fn \<Rightarrow> 'a \<Rightarrow> walk_return \<times> 'a" where
  "Walk tree root fn acc =
     (case walk fn root tree acc of
        (SkipDir, acc') \<Rightarrow> (NoError, acc')
      | r \<Rightarrow> r)"


subsection \<open>\<open>main\<close>\<close>

text \<open>Indexing a slice panics when the index is not below the length.\<close>

definition index :: "'a list \<Rightarrow> nat \<Rightarrow> failure + 'a" where
  "index xs i = (if i < length xs then Inr (xs ! i) else Inl IndexOutOfRange)"

text \<open>The first three lines of the loop body: split the platform, build the map.\<close>

definition platformMap :: "string \<Rightarrow> failure + (string \<rightharpoonup> string)" where
  "platformMap platform =
     (let platformSpec = split_on CHR ''/'' (remove_spaces platform) in
      case index platformSpec 0 of
        Inl e \<Rightarrow> Inl e
      | Inr k \<Rightarrow>
          (case index platformSpec 1 of
             Inl e \<Rightarrow> Inl e
           | Inr a \<Rightarrow> Inr [''kernel'' \<mapsto> k, ''arch'' \<mapsto> a]))"

fun build_platforms ::
  "'w os_iface \<Rightarrow> environment \<Rightarrow> string \<Rightarrow> string \<Rightarrow> string \<Rightarrow> bool \<Rightarrow> string list
     \<Rightarrow> ('w, unit) step" where
  "build_platforms os env packageName destDir ldflags compress [] s = (Inr (), s)"
| "build_platforms os env packageName destDir ldflags compress (platform # rest) s =
     (case platformMap platform of
        Inl e \<Rightarrow> (Inl e, s)
      | Inr m \<Rightarrow>
          seq (build os env packageName destDir m ldflags compress)
            (\<lambda>_. build_platforms os env packageName destDir ldflags compress rest) s)"

text \<open>The function given to \<open>Walk\<close>: it appends the path and returns no error, whatever it gets.\<close>

definition collect :: "string list walk_fn" where
  "collect path err files = (NoError, files @ [path])"

definition compressFlag :: "string \<Rightarrow> bool" where
  "compressFlag inputCompress = (ToLower inputCompress = ''true'')"

text \<open>
  \<open>main\<close> returns the last line it prints, the \<open>::set-output\<close> line, or the reason of the
  fatal exit. (The other lines it prints carry the output of the tools and are not modelled.)
\<close>

definition main :: "'w os_iface \<Rightarrow> environment \<Rightarrow> ('w, string) step" where
  "main os env =
     (let inputPlatforms = INPUT_PLATFORMS env;
          inputPackage = INPUT_PACKAGE env;
          inputCompress = INPUT_COMPRESS env;
          inputDest = INPUT_DEST env;
          inputLdflags = INPUT_LDFLAGS env;
          packageName = remove_spaces inputPackage;
          destDir = remove_spaces inputDest;
          platforms = split_on CHR '','' inputPlatforms;
          compress = compressFlag inputCompress
      in
      seq (build_platforms os env packageName destDir inputLdflags compress platforms) (\<lambda>_.
      seq (run_or_exit os (Command ''ls'' [''-alh'', destDir]) LsFailed) (\<lambda>_ s.
        case Walk (os_tree os (world s) destDir) destDir collect [] of
          (err, files) \<Rightarrow>
            if err \<noteq> NoError then (Inl WalkFailed, s)
            else (Inr (''::set-output name=files::'' @ Join_strings files '' ''), s))))"

section \<open>A file system for the tools\<close>

text \<open>
  The external tools are not part of the program. To say what is on disk after a run, this
  section gives them the behaviour their contracts describe, on a file system that is a tree
  of \<^typ>\<open>fnode\<close>: the compile step writes one file at its output path, \<open>cp\<close> copies a file,
  \<open>tar\<close> writes the archive in its working directory once every member is there, \<open>rm -f\<close>
  removes the named files, \<open>ls\<close> succeeds on what exists. What the shell step returns is a
  parameter of the world. Paths are resolved element by element from the working directory.
\<close>

record fs =
  fs_cwd :: "string list"
  fs_root :: fnode
  fs_shell_ok :: bool

definition resolve_step :: "string list \<Rightarrow> string \<Rightarrow> string list" where
  "resolve_step st e = (if e = ''..'' then butlast st else st @ [e])"

definition resolve :: "string list \<Rightarrow> string \<Rightarrow> string list" where
  "resolve cwd p = foldl resolve_step (if rooted p then [] else cwd) (path_elems p)"

fun lookup :: "string list \<Rightarrow> fnode \<Rightarrow> fnode option" where
  "lookup [] n = Some n"
| "lookup (c # cs) (Dir es) = (case map_of es c of None \<Rightarrow> None | Some n \<Rightarrow> lookup cs n)"
| "lookup (c # cs) _ = None"

fun new_path :: "string list \<Rightarrow> fnode" where
  "new_path [] = File"
| "new_path (c # cs) = Dir [(c, new_path cs)]"

text \<open>
  Writing a file at a path: missing directories on the way are made, a file already there
  is replaced, and the write fails where the path runs through something that is not a
  readable directory. A new entry is inserted in the order of the names, the order in which
  \<open>ReadDir\<close> lists a directory.
\<close>

fun put_file :: "string list \<Rightarrow> fnode \<Rightarrow> fnode option"
  and update_entry :: "string \<Rightarrow> string list \<Rightarrow> (string \<times> fnode) list \<Rightarrow> (string \<times> fnode) list option"
where
  "put_file [] n = (if n = File then Some File else None)"
| "put_file (c # cs) (Dir es) =
     (if c \<in> fst ` set es then map_option Dir (update_entry c cs es)
      else Some (Dir (insort_key fst (c, new_path cs) es)))"
| "put_file (c # cs) _ = None"
| "update_entry c cs [] = None"
| "update_entry c cs (e # es) =
     (if c = fst e then map_option (\<lambda>n. (c, n) # es) (put_file cs (snd e))
      else map_option (\<lambda>es'. e # es') (update_entry c cs es))"

text \<open>Removing a file: nothing happens when there is no file at the path.\<close>

fun remove_file :: "string list \<Rightarrow> fnode \<Rightarrow> fnode"
  and remove_entry :: "string \<Rightarrow> string list \<Rightarrow> (string \<times> fnode) list \<Rightarrow> (string \<times> fnode) list"
where
  "remove_file [] n = n"
| "remove_file (c # cs) (Dir es) = Dir (remove_entry c cs es)"
| "remove_file (c # cs) n = n"
| "remove_entry c cs [] = []"
| "remove_entry c cs (e # es) =
     (if c = fst e then
        (if cs = [] then (if snd e = File then es else e # es)
         else (c, remove_file cs (snd e)) # es)
      else e # remove_entry c cs es)"

definition write_file :: "string list \<Rightarrow> fs \<Rightarrow> bool \<times> fs" where
  "write_file path w =
     (case put_file path (fs_root w) of
        None \<Rightarrow> (False, w)
      | Some r \<Rightarrow> (True, w\<lparr>fs_root := r\<rparr>))"

definition is_file :: "fs \<Rightarrow> string list \<Rightarrow> bool" where
  "is_file w path = (lookup path (fs_root w) = Some File)"

definition fs_tree :: "fs \<Rightarrow> string \<Rightarrow> fnode" where
  "fs_tree w p =
     (if p = [] then Broken
      else case lookup (resolve (fs_cwd w) p) (fs_root w) of None \<Rightarrow> Broken | Some n \<Rightarrow> n)"

definition fs_stat :: "fs \<Rightarrow> string \<Rightarrow> stat_error option" where
  "fs_stat w p =
     (if p = [] then Some ErrNotExist
      else case lookup (resolve (fs_cwd w) p) (fs_root w) of
             None \<Rightarrow> Some ErrNotExist
           | Some Broken \<Rightarrow> Some ErrOther
           | Some _ \<Rightarrow> None)"

definition fs_run :: "command \<Rightarrow> fs \<Rightarrow> bool \<times> fs" where
  "fs_run c w =
     (let base = resolve (fs_cwd w) (cmd_dir c);
          name = cmd_name c;
          args = cmd_args c
      in
      if name = ''go'' then
        (case args of
           [sub, bm, mode, lf, ld, oflag, out, pkg] \<Rightarrow>
             if sub = ''build'' \<and> oflag = ''-o'' then write_file (resolve base out) w else (False, w)
         | _ \<Rightarrow> (False, w))
      else if name = ''cp'' then
        (case args of
           [src, dst] \<Rightarrow>
             if is_file w (resolve base src) \<and> resolve base src \<noteq> resolve base dst
             then write_file (resolve base dst) w
             else (False, w)
         | _ \<Rightarrow> (False, w))
      else if name = ''tar'' then
        (case args of
           flag # gz # members \<Rightarrow>
             if flag = ''-cvzf'' \<and> list_all (\<lambda>m. is_file w (resolve base m)) members
             then write_file (resolve base gz) w
             else (False, w)
         | _ \<Rightarrow> (False, w))
      else if name = ''rm'' then
        (case args of
           flag # names \<Rightarrow>
             if flag = ''-f''
             then (True, w\<lparr>fs_root := fold (\<lambda>n. remove_file (resolve base n)) names (fs_root w)\<rparr>)
             else (False, w)
         | _ \<Rightarrow> (False, w))
      else if name = ''ls'' then
        (case args of
           [flag, d] \<Rightarrow>
             (case fs_tree (w\<lparr>fs_cwd := base\<rparr>) d of
                File \<Rightarrow> (True, w) | Dir _ \<Rightarrow> (True, w) | _ \<Rightarrow> (False, w))
         | _ \<Rightarrow> (False, w))
      else if name = ''/bin/sh'' then (fs_shell_ok w, w)
      else (False, w))"

definition fs_os :: "fs os_iface" where
  "fs_os =
     \<lparr>os_getwd = (\<lambda>w. ''/'' @ Join_strings (fs_cwd w) ''/''),
      os_stat = fs_stat,
      os_run = fs_run,
      os_tree = fs_tree\<rparr>"

definition start :: "'w \<Rightarrow> 'w pstate" where
  "start w = \<lparr>world = w, trace = []\<rparr>"


section \<open>Notions for the proofs, and example inputs\<close>

text \<open>The state after a command has run, and the steps that only add to the trace.\<close>

definition after :: "'w os_iface \<Rightarrow> command \<Rightarrow> 'w pstate \<Rightarrow> 'w pstate" where
  "after os c s = \<lparr>world = snd (os_run os c (world s)), trace = trace s @ [c]\<rparr>"

text \<open>A path element that stands for itself: not empty, not \<open>.\<close>, without a slash.\<close>

definition is_elem :: "string \<Rightarrow> bool" where
  "is_elem e = (e \<noteq> [] \<and> e \<noteq> ''.'' \<and> CHR ''/'' \<notin> set e)"

definition appends :: "('w, 'a) step \<Rightarrow> bool" where
  "appends m = (\<forall>s. \<exists>ys. trace (snd (m s)) = trace s @ ys)"

text \<open>
  A workspace with a \<open>LICENSE\<close> and no \<open>README.md\<close>, and the configuration of the
  end-to-end scenario.
\<close>

definition example_fs :: fs where
  "example_fs =
     \<lparr>fs_cwd = [''github'', ''workspace''],
      fs_root = Dir [(''github'', Dir [(''workspace'',
                  Dir [(''LICENSE'', File), (''build'', Dir []), (''main.go'', File)])])],
      fs_shell_ok = True\<rparr>"

definition example_env :: environment where
  "example_env =
     \<lparr>INPUT_PLATFORMS = ''linux/amd64,windows/arm64'',
      INPUT_PACKAGE = [],
      INPUT_COMPRESS = ''false'',
      INPUT_DEST = ''build'',
      INPUT_LDFLAGS = ''-s -w'',
      INPUT_NAME = ''app'',
      GITHUB_WORKSPACE = ''/github/workspace'',
      Environ = [''HOME=/root'']\<rparr>"

text \<open>
  A world in which every existence check fails with an error other than non-existence (as
  when a directory above the working directory cannot be searched, so that the absolute path
  of \<open>fileExists\<close> cannot be resolved while relative paths still work) and every command
  succeeds.
\<close>

definition denied_os :: "unit os_iface" where
  "denied_os =
     \<lparr>os_getwd = (\<lambda>_. ''/github/workspace''),
      os_stat = (\<lambda>_ _. Some ErrOther),
      os_run = (\<lambda>_ w. (True, w)),
      os_tree = (\<lambda>_ _. Dir [])\<rparr>"

text \<open>
  Configurations with a malformed target: one with three fields, and one without a
  separator after a well-formed target.
\<close>

definition env_three_fields :: environment where
  "env_three_fields = example_env\<lparr>INPUT_PLATFORMS := ''linux/amd64/v8''\<rparr>"

definition env_no_separator :: environment where
  "env_no_separator = example_env\<lparr>INPUT_PLATFORMS := ''linux/amd64,darwin''\<rparr>"

text \<open>
  The example workspace with a directory in the destination directory whose entries cannot
  be read.
\<close>

definition unreadable_fs :: fs where
  "unreadable_fs =
     \<lparr>fs_cwd = [''github'', ''workspace''],
      fs_root = Dir [(''github'', Dir [(''workspace'',
                  Dir [(''LICENSE'', File), (''build'', Dir [(''cache'', Unreadable)]),
                       (''main.go'', File)])])],
      fs_shell_ok = True\<rparr>"

section \<open>The compress flag in the words of the specification\<close>

text \<open>
  The specification reads the flag as: true if and only if the value, with surrounding
  whitespace trimmed, compared without regard to case, equals \<open>true\<close>.
\<close>

definition is_space :: "char \<Rightarrow> bool" where
  "is_space c = (c \<in> {CHR '' '', CHR 0x09, CHR 0x0A, CHR 0x0B, CHR 0x0C, CHR 0x0D})"

definition trim_space :: "string \<Rightarrow> string" where
  "trim_space s = rev (dropWhile is_space (rev (dropWhile is_space s)))"

definition spec_compressFlag :: "string \<Rightarrow> bool" where
  "spec_compressFlag v = (ToLower (trim_space v) = ''true'')"

section \<open>Properties of \<open>build\<close>\<close>

subsection \<open>Steps and traces\<close>

lemma after_simps [simp]:
  "world (after os c s) = snd (os_run os c (world s))"
  "trace (after os c s) = trace s @ [c]"
  by (simp_all add: after_def)

lemma run_or_exit_eq:
  "run_or_exit os c f s = (if fst (os_run os c (world s)) then Inr () else Inl f, after os c s)"
  by (simp add: run_or_exit_def run_cmd_def after_def split: prod.splits)

lemma seq_run_or_exit:
  "seq (run_or_exit os c f) g s =
     (if fst (os_run os c (world s)) then g () (after os c s) else (Inl f, after os c s))"
  by (simp add: seq_def run_or_exit_eq)

lemma seq_stage_file:
  "seq (stage_file os d n inc) g s =
     (if fileExists os n (world s) then
        (if fst (os_run os (Command ''cp'' [n, Join d n]) (world s))
         then g (inc @ [n]) (after os (Command ''cp'' [n, Join d n]) s)
         else (Inl CopyFailed, after os (Command ''cp'' [n, Join d n]) s))
      else g inc s)"
  by (simp add: seq_def stage_file_def copyFile_def run_or_exit_eq)

lemma build_eq:
  "build os env pkg dest m ld compress s =
     (let k = map_get m ''kernel''; a = map_get m ''arch'';
          name = buildFileName (INPUT_NAME env) k a compress;
          d = Join (GITHUB_WORKSPACE env) dest;
          go = buildCmd env ld (Join d name) (packagePath pkg) k a;
          s1 = after os go s
      in if \<not> fst (os_run os go (world s)) then (Inl BuildFailed, s1)
         else if \<not> compress then (Inr (), s1)
         else
           seq (stage_file os d ''README.md'' [name]) (\<lambda>includeFiles.
           seq (stage_file os d ''LICENSE'' includeFiles) (\<lambda>includeFiles.
           seq (run_or_exit os (tarCmd d (gzFileName (INPUT_NAME env) k a) includeFiles) CompressionFailed) (\<lambda>_.
           seq (run_or_exit os (cleanCmd d includeFiles) CleanupFailed) (\<lambda>_.
           run_or_exit os (md5Cmd d) Md5Failed)))) s1)"
  by (simp add: build_def Let_def seq_run_or_exit)

lemma build_no_compress:
  "build os env pkg dest m ld False s =
     run_or_exit os
       (buildCmd env ld
          (Join (Join (GITHUB_WORKSPACE env) dest)
             (buildFileName (INPUT_NAME env) (map_get m ''kernel'') (map_get m ''arch'') False))
          (packagePath pkg) (map_get m ''kernel'') (map_get m ''arch''))
       BuildFailed s"
  by (simp add: build_eq Let_def run_or_exit_eq)


lemma appends_run_or_exit: "appends (run_or_exit os c f)"
  by (simp add: appends_def run_or_exit_eq)

lemma appends_seq: "appends m \<Longrightarrow> (\<And>x. appends (f x)) \<Longrightarrow> appends (seq m f)"
proof (unfold appends_def, intro allI)
  fix s
  assume m: "\<forall>s. \<exists>ys. trace (snd (m s)) = trace s @ ys"
    and f: "\<And>x. \<forall>s. \<exists>ys. trace (snd (f x s)) = trace s @ ys"
  obtain r s1 where ms: "m s = (r, s1)" by (cases "m s")
  from m ms obtain ys where ys: "trace s1 = trace s @ ys" by (metis snd_conv)
  show "\<exists>ys. trace (snd (seq m f s)) = trace s @ ys"
  proof (cases r)
    case (Inl e)
    then show ?thesis using ms ys by (simp add: seq_def)
  next
    case (Inr x)
    from f obtain zs where "trace (snd (f x s1)) = trace s1 @ zs" by blast
    then show ?thesis using ms ys Inr by (simp add: seq_def)
  qed
qed

lemma appends_return: "appends (\<lambda>s. (r, s))"
  by (simp add: appends_def)

lemma appends_stage_file: "appends (stage_file os d n inc)"
proof -
  have "appends (seq (copyFile os n (Join d n)) (\<lambda>_ s'. (Inr (inc @ [n]), s')))"
    by (intro appends_seq appends_return) (simp add: copyFile_def appends_run_or_exit)
  then show ?thesis
    by (simp add: appends_def stage_file_def)
qed

lemma appends_package:
  "appends (seq (stage_file os d ''README.md'' [name]) (\<lambda>includeFiles.
           seq (stage_file os d ''LICENSE'' includeFiles) (\<lambda>includeFiles.
           seq (run_or_exit os (tarCmd d gz includeFiles) CompressionFailed) (\<lambda>_.
           seq (run_or_exit os (cleanCmd d includeFiles) CleanupFailed) (\<lambda>_.
           run_or_exit os (md5Cmd d) Md5Failed)))))"
  by (intro appends_seq appends_stage_file appends_run_or_exit)

lemma build_first_command:
  "\<exists>ys. trace (snd (build os env pkg dest m ld compress s)) =
     trace s @ buildCmd env ld
       (Join (Join (GITHUB_WORKSPACE env) dest)
          (buildFileName (INPUT_NAME env) (map_get m ''kernel'') (map_get m ''arch'') compress))
       (packagePath pkg) (map_get m ''kernel'') (map_get m ''arch'') # ys"
proof -
  define k where "k = map_get m ''kernel''"
  define a where "a = map_get m ''arch''"
  define d where "d = Join (GITHUB_WORKSPACE env) dest"
  define name where "name = buildFileName (INPUT_NAME env) k a compress"
  define go where "go = buildCmd env ld (Join d name) (packagePath pkg) k a"
  define rest where "rest =
    seq (stage_file os d ''README.md'' [name]) (\<lambda>includeFiles.
    seq (stage_file os d ''LICENSE'' includeFiles) (\<lambda>includeFiles.
    seq (run_or_exit os (tarCmd d (gzFileName (INPUT_NAME env) k a) includeFiles) CompressionFailed) (\<lambda>_.
    seq (run_or_exit os (cleanCmd d includeFiles) CleanupFailed) (\<lambda>_.
    run_or_exit os (md5Cmd d) Md5Failed))))"
  have b: "build os env pkg dest m ld compress s =
      (if \<not> fst (os_run os go (world s)) then (Inl BuildFailed, after os go s)
       else if \<not> compress then (Inr (), after os go s)
       else rest (after os go s))"
    by (simp add: build_eq Let_def k_def a_def d_def name_def go_def rest_def)
  have "appends rest"
    unfolding rest_def by (rule appends_package)
  then obtain ys where "trace (snd (rest (after os go s))) = trace (after os go s) @ ys"
    unfolding appends_def by blast
  then have "\<exists>ys. trace (snd (build os env pkg dest m ld compress s)) = trace s @ go # ys"
    by (simp add: b)
  then show ?thesis
    by (simp add: k_def a_def d_def name_def go_def)
qed

lemma appends_build: "appends (build os env pkg dest m ld compress)"
  unfolding appends_def using build_first_command [of os env pkg dest m ld compress] by metis


text \<open>
  Claim C7. For every target, the binary file name is \<open>{baseName}-{kernel}-{arch}\<close> when
  packaging is disabled and \<open>{baseName}\<close> alone when it is enabled, with \<open>.exe\<close> appended if
  and only if the kernel is \<open>windows\<close>; the compile command, the first command of \<open>build\<close>,
  writes to that name in the destination directory.
\<close>

theorem C7_binary_file_name:
  "(let k = map_get m ''kernel''; a = map_get m ''arch''; base = INPUT_NAME env;
        expected = (if compress then base else base @ ''-'' @ k @ ''-'' @ a)
                   @ (if k = ''windows'' then ''.exe'' else [])
    in buildFileName base k a compress = expected \<and>
       (\<exists>go ys. trace (snd (build os env pkg dest m ld compress s)) = trace s @ go # ys \<and>
          cmd_name go = ''go'' \<and> cmd_args go ! 5 = ''-o'' \<and>
          cmd_args go ! 6 = Join (Join (GITHUB_WORKSPACE env) dest) expected))"
proof -
  have n: "buildFileName (INPUT_NAME env) (map_get m ''kernel'') (map_get m ''arch'') compress =
      (if compress then INPUT_NAME env
       else INPUT_NAME env @ ''-'' @ map_get m ''kernel'' @ ''-'' @ map_get m ''arch'')
      @ (if map_get m ''kernel'' = ''windows'' then ''.exe'' else [])"
    by (simp add: buildFileName_def)
  obtain ys where "trace (snd (build os env pkg dest m ld compress s)) =
     trace s @ buildCmd env ld
       (Join (Join (GITHUB_WORKSPACE env) dest)
          (buildFileName (INPUT_NAME env) (map_get m ''kernel'') (map_get m ''arch'') compress))
       (packagePath pkg) (map_get m ''kernel'') (map_get m ''arch'') # ys"
    using build_first_command by blast
  then show ?thesis
    unfolding Let_def n [symmetric]
    by (intro conjI exI [of _ ys] exI [of _ "buildCmd env ld
       (Join (Join (GITHUB_WORKSPACE env) dest)
          (buildFileName (INPUT_NAME env) (map_get m ''kernel'') (map_get m ''arch'') compress))
       (packagePath pkg) (map_get m ''kernel'') (map_get m ''arch'')"])
       (simp_all add: buildCmd_def Command_def)
qed

theorem C7_witness:
  "buildFileName ''app'' ''windows'' ''arm64'' False = ''app-windows-arm64.exe'' \<and>
   buildFileName ''app'' ''windows'' ''arm64'' True = ''app.exe'' \<and>
   buildFileName ''app'' ''linux'' ''amd64'' False = ''app-linux-amd64'' \<and>
   buildFileName ''app'' ''linux'' ''amd64'' True = ''app''"
  using C7_binary_file_name [of "[''kernel'' \<mapsto> ''windows'', ''arch'' \<mapsto> ''arm64'']" example_env False fs_os]
    C7_binary_file_name [of "[''kernel'' \<mapsto> ''windows'', ''arch'' \<mapsto> ''arm64'']" example_env True fs_os]
    C7_binary_file_name [of "[''kernel'' \<mapsto> ''linux'', ''arch'' \<mapsto> ''amd64'']" example_env False fs_os]
    C7_binary_file_name [of "[''kernel'' \<mapsto> ''linux'', ''arch'' \<mapsto> ''amd64'']" example_env True fs_os]
  by (simp add: Let_def map_get_def example_env_def)

text \<open>
  Claim C9. For every target, the first command of \<open>build\<close> is \<open>go build\<close> with the linker
  flags, the output path (destination directory joined with the binary file name), the package
  path (\<open>./\<close> before the package name, or \<open>.\<close> when there is none) and an environment that
  ends with \<open>GOOS\<close> and \<open>GOARCH\<close> set to the kernel and the architecture of the target.
\<close>

theorem C9_compile_step:
  "\<exists>ys. trace (snd (build os env pkg dest m ld compress s)) =
     trace s @
     \<lparr>cmd_name = ''go'',
      cmd_args = [''build'', ''-buildmode'', ''exe'', ''-ldflags'', ld, ''-o'',
                  Join (Join (GITHUB_WORKSPACE env) dest)
                    (buildFileName (INPUT_NAME env) (map_get m ''kernel'') (map_get m ''arch'') compress),
                  (if pkg = [] then ''.'' else ''./'' @ pkg)],
      cmd_dir = [],
      cmd_env = Some (Environ env @
                  [''GOOS='' @ map_get m ''kernel'', ''GOARCH='' @ map_get m ''arch''])\<rparr> # ys"
  using build_first_command [of os env pkg dest m ld compress s]
  by (simp add: buildCmd_def Command_def packagePath_def)

text \<open>
  Claim C10. With compression off, \<open>build\<close> runs the compile command and nothing else: the
  trace grows by that one command (no copy, no archive, no cleanup), the world changes only
  by it, and the result is its success or the fatal exit of a failed build.
\<close>

theorem C10_no_packaging_steps:
  "\<exists>go. cmd_name go = ''go'' \<and>
     build os env pkg dest m ld False s =
       (if fst (os_run os go (world s)) then Inr () else Inl BuildFailed,
        \<lparr>world = snd (os_run os go (world s)), trace = trace s @ [go]\<rparr>)"
  by (rule exI [of _ "buildCmd env ld
          (Join (Join (GITHUB_WORKSPACE env) dest)
             (buildFileName (INPUT_NAME env) (map_get m ''kernel'') (map_get m ''arch'') False))
          (packagePath pkg) (map_get m ''kernel'') (map_get m ''arch'')"])
     (simp add: build_no_compress run_or_exit_eq after_def buildCmd_def Command_def)


lemma Join_example1: "Join ''/github/workspace'' ''build'' = ''/github/workspace/build''"
  by (simp add: Join_def Clean_def rooted_def path_elems_def clean_step_def)

lemma Join_example2: "Join ''/github/workspace/build'' ''app-linux-amd64'' = ''/github/workspace/build/app-linux-amd64''"
  by (simp add: Join_def Clean_def rooted_def path_elems_def clean_step_def)

theorem C9_witness:
  "\<exists>ys. trace (snd (build fs_os example_env ''cmd/app'' ''build''
                      [''kernel'' \<mapsto> ''linux'', ''arch'' \<mapsto> ''amd64''] ''-s -w'' False
                      (start example_fs))) =
     \<lparr>cmd_name = ''go'',
      cmd_args = [''build'', ''-buildmode'', ''exe'', ''-ldflags'', ''-s -w'', ''-o'',
                  ''/github/workspace/build/app-linux-amd64'', ''./cmd/app''],
      cmd_dir = [],
      cmd_env = Some [''HOME=/root'', ''GOOS=linux'', ''GOARCH=amd64'']\<rparr> # ys"
  using C9_compile_step [of fs_os example_env "''cmd/app''" "''build''"
      "[''kernel'' \<mapsto> ''linux'', ''arch'' \<mapsto> ''amd64'']" "''-s -w''" False "start example_fs"]
  by (simp add: example_env_def start_def map_get_def buildFileName_def Join_example1 Join_example2)

theorem C10_witness:
  "length (trace (snd (build fs_os example_env [] ''build''
                      [''kernel'' \<mapsto> ''linux'', ''arch'' \<mapsto> ''amd64''] ''-s -w'' False
                      (start example_fs)))) = 1"
  using C10_no_packaging_steps [of fs_os example_env "[]" "''build''"
      "[''kernel'' \<mapsto> ''linux'', ''arch'' \<mapsto> ''amd64'']" "''-s -w''" "start example_fs"]
  by (auto simp add: start_def)

section \<open>The configuration reader\<close>

subsection \<open>The compress flag\<close>

lemma to_lower_char_t: "to_lower_char c = CHR ''t'' \<longleftrightarrow> c = CHR ''t'' \<or> c = CHR ''T''"
  by (auto simp: to_lower_char_def)
lemma to_lower_char_r: "to_lower_char c = CHR ''r'' \<longleftrightarrow> c = CHR ''r'' \<or> c = CHR ''R''"
  by (auto simp: to_lower_char_def)
lemma to_lower_char_u: "to_lower_char c = CHR ''u'' \<longleftrightarrow> c = CHR ''u'' \<or> c = CHR ''U''"
  by (auto simp: to_lower_char_def)
lemma to_lower_char_e: "to_lower_char c = CHR ''e'' \<longleftrightarrow> c = CHR ''e'' \<or> c = CHR ''E''"
  by (auto simp: to_lower_char_def)

lemma map_eq_four:
  "map f v = [w, x, y, z] \<longleftrightarrow> (\<exists>a b c d. v = [a, b, c, d] \<and> f a = w \<and> f b = x \<and> f c = y \<and> f d = z)"
proof
  assume "map f v = [w, x, y, z]"
  then obtain a v1 where v: "v = a # v1" and a: "f a = w" and 1: "map f v1 = [x, y, z]"
    by (auto simp: map_eq_Cons_conv)
  from 1 obtain b v2 where v1: "v1 = b # v2" and b: "f b = x" and 2: "map f v2 = [y, z]"
    by (auto simp: map_eq_Cons_conv)
  from 2 obtain c v3 where v2: "v2 = c # v3" and c: "f c = y" and 3: "map f v3 = [z]"
    by (auto simp: map_eq_Cons_conv)
  from 3 obtain d where v3: "v3 = [d]" and d: "f d = z"
    by (auto simp: map_eq_Cons_conv)
  show "\<exists>a b c d. v = [a, b, c, d] \<and> f a = w \<and> f b = x \<and> f c = y \<and> f d = z"
    using v v1 v2 v3 a b c d by blast
next
  assume "\<exists>a b c d. v = [a, b, c, d] \<and> f a = w \<and> f b = x \<and> f c = y \<and> f d = z"
  then show "map f v = [w, x, y, z]" by auto
qed

text \<open>
  Claim C4, as amended. The flag is true if and only if the value itself, with nothing
  trimmed, is one of the sixteen spellings of \<open>true\<close> in upper and lower case; every other
  value, the empty string and a padded \<open>true\<close> among them, gives false.
\<close>

theorem C4_compress_flag_untrimmed:
  "compressFlag v \<longleftrightarrow>
     (\<exists>a b c d. v = [a, b, c, d] \<and> (a = CHR ''t'' \<or> a = CHR ''T'') \<and> (b = CHR ''r'' \<or> b = CHR ''R'')
        \<and> (c = CHR ''u'' \<or> c = CHR ''U'') \<and> (d = CHR ''e'' \<or> d = CHR ''E''))"
proof -
  have "compressFlag v \<longleftrightarrow> map to_lower_char v = [CHR ''t'', CHR ''r'', CHR ''u'', CHR ''e'']"
    by (simp add: compressFlag_def ToLower_def)
  then show ?thesis
    by (simp only: map_eq_four to_lower_char_t to_lower_char_r to_lower_char_u to_lower_char_e)
qed

theorem C4_witness:
  "compressFlag ''TrUe'' \<and> \<not> compressFlag [] \<and> \<not> compressFlag ''true '' \<and> \<not> compressFlag ''yes''"
  using C4_compress_flag_untrimmed [of "''TrUe''"] C4_compress_flag_untrimmed [of "[]"]
    C4_compress_flag_untrimmed [of "''true ''"] C4_compress_flag_untrimmed [of "''yes''"]
  by simp

text \<open>
  Claim C4 as stated fails: the value \<open>true\<close> between two spaces is true for the
  specification, which trims it, and false for the program, which does not.
\<close>

theorem C4_counterexample:
  "spec_compressFlag '' true '' \<and> \<not> compressFlag '' true ''"
  by (simp add: spec_compressFlag_def compressFlag_def trim_space_def is_space_def ToLower_def to_lower_char_def)

section \<open>The existence check\<close>

text \<open>
  Claim C3, as amended. When the existence check of a path fails for a reason other than
  non-existence, \<open>fileExists\<close> answers true and nothing is raised: the file is taken as
  present, the copy is attempted, and on its success the name joins the inclusion list. Only a
  failing copy is fatal.
\<close>

theorem C3_stat_error_means_present:
  "os_stat os (world s) (Join (os_getwd os (world s)) path) = Some ErrOther \<Longrightarrow>
     fileExists os path (world s) \<and>
     stage_file os d path includeFiles s =
       (if fst (os_run os (Command ''cp'' [path, Join d path]) (world s))
        then Inr (includeFiles @ [path]) else Inl CopyFailed,
        \<lparr>world = snd (os_run os (Command ''cp'' [path, Join d path]) (world s)),
         trace = trace s @ [Command ''cp'' [path, Join d path]]\<rparr>)"
  by (simp add: fileExists_def IsNotExist_def stage_file_def seq_def copyFile_def run_or_exit_eq after_def)

theorem C3_witness:
  "fileExists denied_os ''LICENSE'' () \<and>
     stage_file denied_os ''/out'' ''LICENSE'' [''app''] (start ()) =
       (Inr [''app'', ''LICENSE''],
        \<lparr>world = (), trace = [Command ''cp'' [''LICENSE'', Join ''/out'' ''LICENSE'']]\<rparr>)"
  using C3_stat_error_means_present [of denied_os "start ()" "''LICENSE''" "''/out''" "[''app'']"]
  by (simp add: denied_os_def start_def)

text \<open>
  Claim C3 as stated fails: in a world where every existence check fails with another error
  and the tools succeed, \<open>README.md\<close> counts as present and the build of a target with
  compression ends without a fatal exit.
\<close>

theorem C3_counterexample:
  "os_stat denied_os () (Join (os_getwd denied_os ()) ''README.md'') = Some ErrOther \<and>
   fileExists denied_os ''README.md'' () \<and>
   fst (build denied_os example_env [] ''build'' [''kernel'' \<mapsto> ''linux'', ''arch'' \<mapsto> ''amd64'']
          ''-s -w'' True (start ())) = Inr ()"
  by (simp add: denied_os_def fileExists_def IsNotExist_def build_eq Let_def seq_stage_file
      seq_run_or_exit run_or_exit_eq)

section \<open>Packaging\<close>

lemma seq_stage_file_ok:
  "seq (stage_file os d n inc) g s = (r, s') \<Longrightarrow> r \<noteq> Inl CopyFailed \<Longrightarrow>
     g (inc @ (if fileExists os n (world s) then [n] else []))
       (if fileExists os n (world s) then after os (Command ''cp'' [n, Join d n]) s else s) = (r, s')"
  by (simp add: seq_stage_file split: if_splits)

lemma seq_run_or_exit_ok:
  "seq (run_or_exit os c f) g s = (r, s') \<Longrightarrow> r \<noteq> Inl f \<Longrightarrow>
     g () (after os c s) = (r, s')"
  by (simp add: seq_run_or_exit split: if_splits)

lemma gz_not_included:
  "gzFileName base k a \<notin> set ([base @ (if k = ''windows'' then ''.exe'' else [])]
       @ (if readme then [''README.md''] else []) @ (if license then [''LICENSE''] else []))"
proof -
  have 1: "gzFileName base k a \<noteq> base @ (if k = ''windows'' then ''.exe'' else [])"
    by (auto simp: gzFileName_def dest: arg_cong [where f = length])
  have "last (gzFileName base k a) = CHR ''z''"
    by (simp add: gzFileName_def)
  then have 2: "gzFileName base k a \<noteq> ''README.md''" "gzFileName base k a \<noteq> ''LICENSE''"
    by auto
  show ?thesis using 1 2 by (simp del: append_eq_append_conv)
qed

lemma build_compress_past_cleanup:
  assumes b: "build os env pkg dest m ld True s = (r, s')"
    and notfail: "r \<noteq> Inl BuildFailed" "r \<noteq> Inl CopyFailed" "r \<noteq> Inl CompressionFailed"
      "r \<noteq> Inl CleanupFailed"
  shows
    "(let k = map_get m ''kernel''; a = map_get m ''arch''; base = INPUT_NAME env;
          d = Join (GITHUB_WORKSPACE env) dest;
          bin = base @ (if k = ''windows'' then ''.exe'' else []);
          s1 = after os (buildCmd env ld (Join d bin) (packagePath pkg) k a) s;
          readme = fileExists os ''README.md'' (world s1);
          s2 = (if readme then after os (Command ''cp'' [''README.md'', Join d ''README.md'']) s1
                else s1);
          license = fileExists os ''LICENSE'' (world s2);
          s3 = (if license then after os (Command ''cp'' [''LICENSE'', Join d ''LICENSE'']) s2
                else s2);
          includeFiles = [bin] @ (if readme then [''README.md''] else [])
                         @ (if license then [''LICENSE''] else [])
      in run_or_exit os (md5Cmd d) Md5Failed
           (after os (cleanCmd d includeFiles)
              (after os (tarCmd d (gzFileName base k a) includeFiles) s3)) = (r, s'))"
proof -
  define k where "k = map_get m ''kernel''"
  define a where "a = map_get m ''arch''"
  define base where "base = INPUT_NAME env"
  define d where "d = Join (GITHUB_WORKSPACE env) dest"
  define bin where "bin = base @ (if k = ''windows'' then ''.exe'' else [])"
  define go where "go = buildCmd env ld (Join d bin) (packagePath pkg) k a"
  define s1 where "s1 = after os go s"
  define readme where "readme = fileExists os ''README.md'' (world s1)"
  define cp1 where "cp1 = Command ''cp'' [''README.md'', Join d ''README.md'']"
  define s2 where "s2 = (if readme then after os cp1 s1 else s1)"
  define license where "license = fileExists os ''LICENSE'' (world s2)"
  define cp2 where "cp2 = Command ''cp'' [''LICENSE'', Join d ''LICENSE'']"
  define s3 where "s3 = (if license then after os cp2 s2 else s2)"
  define inc where "inc = [bin] @ (if readme then [''README.md''] else [])
                         @ (if license then [''LICENSE''] else [])"
  define gz where "gz = gzFileName base k a"
  have name: "buildFileName base k a True = bin"
    by (simp add: buildFileName_def bin_def)
  have "build os env pkg dest m ld True s =
        (if \<not> fst (os_run os go (world s)) then (Inl BuildFailed, s1)
         else seq (stage_file os d ''README.md'' [bin]) (\<lambda>includeFiles.
           seq (stage_file os d ''LICENSE'' includeFiles) (\<lambda>includeFiles.
           seq (run_or_exit os (tarCmd d gz includeFiles) CompressionFailed) (\<lambda>_.
           seq (run_or_exit os (cleanCmd d includeFiles) CleanupFailed) (\<lambda>_.
           run_or_exit os (md5Cmd d) Md5Failed)))) s1)"
    by (simp add: build_eq Let_def name [unfolded k_def a_def base_def]
        k_def a_def d_def go_def s1_def gz_def base_def)
  with b notfail(1) have "seq (stage_file os d ''README.md'' [bin]) (\<lambda>includeFiles.
           seq (stage_file os d ''LICENSE'' includeFiles) (\<lambda>includeFiles.
           seq (run_or_exit os (tarCmd d gz includeFiles) CompressionFailed) (\<lambda>_.
           seq (run_or_exit os (cleanCmd d includeFiles) CleanupFailed) (\<lambda>_.
           run_or_exit os (md5Cmd d) Md5Failed)))) s1 = (r, s')"
    by (simp split: if_splits)
  from seq_stage_file_ok [OF this notfail(2)]
  have "seq (stage_file os d ''LICENSE'' ([bin] @ (if readme then [''README.md''] else []))) (\<lambda>includeFiles.
           seq (run_or_exit os (tarCmd d gz includeFiles) CompressionFailed) (\<lambda>_.
           seq (run_or_exit os (cleanCmd d includeFiles) CleanupFailed) (\<lambda>_.
           run_or_exit os (md5Cmd d) Md5Failed))) s2 = (r, s')"
    by (simp only: readme_def [symmetric] cp1_def [symmetric] s2_def [symmetric])
  from seq_stage_file_ok [OF this notfail(2)]
  have "seq (run_or_exit os (tarCmd d gz inc) CompressionFailed) (\<lambda>_.
           seq (run_or_exit os (cleanCmd d inc) CleanupFailed) (\<lambda>_.
           run_or_exit os (md5Cmd d) Md5Failed)) s3 = (r, s')"
    by (simp only: license_def [symmetric] cp2_def [symmetric] s3_def [symmetric] inc_def append_assoc)
  from seq_run_or_exit_ok [OF this notfail(3)]
  have "seq (run_or_exit os (cleanCmd d inc) CleanupFailed) (\<lambda>_.
           run_or_exit os (md5Cmd d) Md5Failed) (after os (tarCmd d gz inc) s3) = (r, s')" .
  from seq_run_or_exit_ok [OF this notfail(4)]
  have "run_or_exit os (md5Cmd d) Md5Failed
          (after os (cleanCmd d inc) (after os (tarCmd d gz inc) s3)) = (r, s')" .
  then show ?thesis
    unfolding Let_def inc_def s3_def license_def cp2_def s2_def readme_def cp1_def s1_def go_def
      gz_def bin_def d_def base_def k_def a_def .
qed

text \<open>
  Claim C8. When a target is built with compression and the run gets past the cleanup step,
  the commands of the target are, in this order: the compile command, one copy into the
  destination directory for each of \<open>README.md\<close> and \<open>LICENSE\<close> whose existence check
  (\<open>fileExists\<close>, made after the step before it) answers true, \<open>tar -cvzf\<close> run in the
  destination directory with the archive name \<open>{baseName}-{kernel}-{arch}.tar.gz\<close> and exactly
  the inclusion list (the binary, then the files copied), \<open>rm -f\<close> run in the destination
  directory with exactly the inclusion list, and the diagnostic step. The archive name is not
  in the inclusion list, so the cleanup removes every file the target put into the
  destination directory and leaves the archive.
\<close>

theorem C8_archive_and_cleanup:
  assumes b: "build os env pkg dest m ld True s = (r, s')"
    and r: "r = Inr () \<or> r = Inl Md5Failed"
  shows
    "(let k = map_get m ''kernel''; a = map_get m ''arch''; base = INPUT_NAME env;
          d = Join (GITHUB_WORKSPACE env) dest;
          bin = base @ (if k = ''windows'' then ''.exe'' else []);
          go = buildCmd env ld (Join d bin) (packagePath pkg) k a;
          w1 = snd (os_run os go (world s));
          readme = fileExists os ''README.md'' w1;
          w2 = (if readme
                then snd (os_run os (Command ''cp'' [''README.md'', Join d ''README.md'']) w1)
                else w1);
          license = fileExists os ''LICENSE'' w2;
          includeFiles = [bin] @ (if readme then [''README.md''] else [])
                         @ (if license then [''LICENSE''] else []);
          gz = base @ ''-'' @ k @ ''-'' @ a @ ''.tar.gz''
      in trace s' =
           trace s @ [go] @ map (\<lambda>f. Command ''cp'' [f, Join d f]) (tl includeFiles) @
           [\<lparr>cmd_name = ''tar'', cmd_args = [''-cvzf'', gz] @ includeFiles,
             cmd_dir = d, cmd_env = None\<rparr>,
            \<lparr>cmd_name = ''rm'', cmd_args = [''-f''] @ includeFiles,
             cmd_dir = d, cmd_env = None\<rparr>,
            md5Cmd d]
         \<and> gz \<notin> set includeFiles)"
proof -
  have notfail: "r \<noteq> Inl BuildFailed" "r \<noteq> Inl CopyFailed" "r \<noteq> Inl CompressionFailed"
    "r \<noteq> Inl CleanupFailed"
    using r by auto
  have gz: "INPUT_NAME env @ ''-'' @ k @ ''-'' @ a @ ''.tar.gz'' \<notin>
      set ([INPUT_NAME env @ (if k = ''windows'' then ''.exe'' else [])]
       @ (if readme then [''README.md''] else []) @ (if license then [''LICENSE''] else []))"
    for k a readme license
    by (rule gz_not_included [unfolded gzFileName_def])
  from build_compress_past_cleanup [OF b notfail]
  show ?thesis
    unfolding Let_def
    by (intro conjI gz)
       (auto simp add: run_or_exit_eq tarCmd_def cleanCmd_def Command_def gzFileName_def)
qed

theorem C8_witness:
  "fst (build fs_os example_env [] ''build'' [''kernel'' \<mapsto> ''windows'', ''arch'' \<mapsto> ''arm64'']
          ''-s -w'' True (start example_fs)) = Inr () \<and>
   map cmd_args (trace (snd (build fs_os example_env [] ''build''
          [''kernel'' \<mapsto> ''windows'', ''arch'' \<mapsto> ''arm64''] ''-s -w'' True (start example_fs)))) =
     [[''build'', ''-buildmode'', ''exe'', ''-ldflags'', ''-s -w'', ''-o'',
       ''/github/workspace/build/app.exe'', ''.''],
      [''LICENSE'', ''/github/workspace/build/LICENSE''],
      [''-cvzf'', ''app-windows-arm64.tar.gz'', ''app.exe'', ''LICENSE''],
      [''-f'', ''app.exe'', ''LICENSE''],
      [''-c'', [CHR 0x27] @ ''pwd && ls -la'' @ [CHR 0x27]]] \<and>
   lookup [''github'', ''workspace'', ''build'']
     (fs_root (world (snd (build fs_os example_env [] ''build''
          [''kernel'' \<mapsto> ''windows'', ''arch'' \<mapsto> ''arm64''] ''-s -w'' True (start example_fs))))) =
     Some (Dir [(''app-windows-arm64.tar.gz'', File)])"
proof -
  let ?b = "build fs_os example_env [] ''build'' [''kernel'' \<mapsto> ''windows'', ''arch'' \<mapsto> ''arm64'']
          ''-s -w'' True (start example_fs)"
  have r: "fst ?b = Inr ()" by code_simp
  have f1: "fileExists fs_os ''README.md''
      (snd (os_run fs_os (buildCmd example_env ''-s -w'' ''/github/workspace/build/app.exe'' ''.'' ''windows'' ''arm64'')
         example_fs)) = False"
    by code_simp
  have f2: "fileExists fs_os ''LICENSE''
      (snd (os_run fs_os (buildCmd example_env ''-s -w'' ''/github/workspace/build/app.exe'' ''.'' ''windows'' ''arm64'')
         example_fs)) = True"
    by code_simp
  have j: "Join ''/github/workspace'' ''build'' = ''/github/workspace/build''"
    "Join ''/github/workspace/build'' ''app.exe'' = ''/github/workspace/build/app.exe''"
    "Join ''/github/workspace/build'' ''LICENSE'' = ''/github/workspace/build/LICENSE''"
    by code_simp+
  have e: "GITHUB_WORKSPACE example_env = ''/github/workspace''" "INPUT_NAME example_env = ''app''"
    by (simp_all add: example_env_def)
  have "trace (snd ?b) =
     [buildCmd example_env ''-s -w'' ''/github/workspace/build/app.exe'' ''.'' ''windows'' ''arm64'',
      Command ''cp'' [''LICENSE'', ''/github/workspace/build/LICENSE''],
      \<lparr>cmd_name = ''tar'', cmd_args = [''-cvzf'', ''app-windows-arm64.tar.gz'', ''app.exe'', ''LICENSE''],
       cmd_dir = ''/github/workspace/build'', cmd_env = None\<rparr>,
      \<lparr>cmd_name = ''rm'', cmd_args = [''-f'', ''app.exe'', ''LICENSE''],
       cmd_dir = ''/github/workspace/build'', cmd_env = None\<rparr>,
      md5Cmd ''/github/workspace/build'']"
    using C8_archive_and_cleanup [OF surjective_pairing [of ?b] disjI1 [OF r]]
    by (simp add: Let_def map_get_def e j packagePath_def f1 f2 start_def)
  then have t: "map cmd_args (trace (snd ?b)) =
     [[''build'', ''-buildmode'', ''exe'', ''-ldflags'', ''-s -w'', ''-o'',
       ''/github/workspace/build/app.exe'', ''.''],
      [''LICENSE'', ''/github/workspace/build/LICENSE''],
      [''-cvzf'', ''app-windows-arm64.tar.gz'', ''app.exe'', ''LICENSE''],
      [''-f'', ''app.exe'', ''LICENSE''],
      [''-c'', [CHR 0x27] @ ''pwd && ls -la'' @ [CHR 0x27]]]"
    by (simp add: buildCmd_def Command_def md5Cmd_def)
  have l: "lookup [''github'', ''workspace'', ''build''] (fs_root (world (snd ?b))) =
     Some (Dir [(''app-windows-arm64.tar.gz'', File)])"
    by code_simp
  show ?thesis using r t l by blast
qed

text \<open>
  Claim C2. When a target is built with compression and neither the compile step, a copy,
  the archive step nor the cleanup step failed, \<open>build\<close> runs one more command right after
  the cleanup (\<open>rm\<close>): \<open>/bin/sh -c\<close> with the single command string \<open>'pwd && ls -la'\<close>,
  single quotes included, in the destination directory. The result of \<open>build\<close> is decided by
  that command alone: when it fails the program exits with status 1, although every step
  before it succeeded. (A fatal exit in \<open>build\<close> ends the loop over the targets and \<open>main\<close>:
  see \<open>build_platforms_stops\<close> and \<open>main_exits_with_build_failure\<close> below.)
\<close>

theorem C2_diagnostic_step:
  fixes os :: "'w os_iface"
  assumes b: "build os env pkg dest m ld True s = (r, s')"
    and notfail: "r \<noteq> Inl BuildFailed" "r \<noteq> Inl CopyFailed" "r \<noteq> Inl CompressionFailed"
      "r \<noteq> Inl CleanupFailed"
  shows
    "(let sh = \<lparr>cmd_name = ''/bin/sh'',
                cmd_args = [''-c'', [CHR 0x27] @ ''pwd && ls -la'' @ [CHR 0x27]],
                cmd_dir = Join (GITHUB_WORKSPACE env) dest,
                cmd_env = None\<rparr>
      in \<exists>s5 :: 'w pstate. cmd_name (last (trace s5)) = ''rm'' \<and>
           trace s' = trace s5 @ [sh] \<and>
           world s' = snd (os_run os sh (world s5)) \<and>
           r = (if fst (os_run os sh (world s5)) then Inr () else Inl Md5Failed) \<and>
           exit_status Md5Failed = 1)"
proof -
  have sh: "md5Cmd d = \<lparr>cmd_name = ''/bin/sh'',
                cmd_args = [''-c'', [CHR 0x27] @ ''pwd && ls -la'' @ [CHR 0x27]],
                cmd_dir = d, cmd_env = None\<rparr>" for d
    by (simp add: md5Cmd_def Command_def)
  from build_compress_past_cleanup [OF b notfail]
  obtain s4 inc where "run_or_exit os (md5Cmd (Join (GITHUB_WORKSPACE env) dest)) Md5Failed
      (after os (cleanCmd (Join (GITHUB_WORKSPACE env) dest) inc) s4) = (r, s')"
    unfolding Let_def by blast
  then have "cmd_name (last (trace (after os (cleanCmd (Join (GITHUB_WORKSPACE env) dest) inc) s4))) = ''rm'' \<and>
      trace s' = trace (after os (cleanCmd (Join (GITHUB_WORKSPACE env) dest) inc) s4)
                 @ [md5Cmd (Join (GITHUB_WORKSPACE env) dest)] \<and>
      world s' = snd (os_run os (md5Cmd (Join (GITHUB_WORKSPACE env) dest))
                   (world (after os (cleanCmd (Join (GITHUB_WORKSPACE env) dest) inc) s4))) \<and>
      r = (if fst (os_run os (md5Cmd (Join (GITHUB_WORKSPACE env) dest))
                   (world (after os (cleanCmd (Join (GITHUB_WORKSPACE env) dest) inc) s4)))
           then Inr () else Inl Md5Failed) \<and>
      exit_status Md5Failed = 1"
    by (auto simp add: run_or_exit_eq cleanCmd_def Command_def exit_status_def)
  then show ?thesis
    unfolding Let_def sh [symmetric] by blast
qed

theorem C2_witness:
  "fst (build fs_os example_env [] ''build'' [''kernel'' \<mapsto> ''linux'', ''arch'' \<mapsto> ''amd64'']
          ''-s -w'' True (start (example_fs\<lparr>fs_shell_ok := False\<rparr>))) = Inl Md5Failed \<and>
   last (trace (snd (build fs_os example_env [] ''build''
          [''kernel'' \<mapsto> ''linux'', ''arch'' \<mapsto> ''amd64''] ''-s -w'' True
          (start (example_fs\<lparr>fs_shell_ok := False\<rparr>))))) =
     \<lparr>cmd_name = ''/bin/sh'',
      cmd_args = [''-c'', [CHR 0x27] @ ''pwd && ls -la'' @ [CHR 0x27]],
      cmd_dir = ''/github/workspace/build'',
      cmd_env = None\<rparr>"
proof -
  let ?b = "build fs_os example_env [] ''build'' [''kernel'' \<mapsto> ''linux'', ''arch'' \<mapsto> ''amd64'']
          ''-s -w'' True (start (example_fs\<lparr>fs_shell_ok := False\<rparr>))"
  have r: "fst ?b = Inl Md5Failed" by code_simp
  have j: "Join (GITHUB_WORKSPACE example_env) ''build'' = ''/github/workspace/build''"
    by code_simp
  from C2_diagnostic_step [OF surjective_pairing [of ?b]] r
  have "\<exists>s5 :: fs pstate. trace (snd ?b) = trace s5 @
     [\<lparr>cmd_name = ''/bin/sh'',
       cmd_args = [''-c'', [CHR 0x27] @ ''pwd && ls -la'' @ [CHR 0x27]],
       cmd_dir = ''/github/workspace/build'',
       cmd_env = None\<rparr>]"
    unfolding Let_def j by auto
  then have "last (trace (snd ?b)) =
     \<lparr>cmd_name = ''/bin/sh'',
      cmd_args = [''-c'', [CHR 0x27] @ ''pwd && ls -la'' @ [CHR 0x27]],
      cmd_dir = ''/github/workspace/build'',
      cmd_env = None\<rparr>"
    by auto
  with r show ?thesis by blast
qed

section \<open>Target specifications\<close>

lemma split_on_not_Nil: "split_on c s \<noteq> []"
  by (induction s) (auto split: list.splits)

lemma length_split_on: "length (split_on c s) = Suc (count_list s c)"
  by (induction s) (auto split: list.splits simp: split_on_not_Nil)

lemma split_on_fields:
  "split_on c s =
     takeWhile (\<lambda>x. x \<noteq> c) s #
     (if c \<in> set s then split_on c (drop (Suc (length (takeWhile (\<lambda>x. x \<noteq> c) s))) s) else [])"
  by (induction s) (auto split: list.splits simp: split_on_not_Nil)

lemma build_platforms_append:
  "build_platforms os env pkg dest ld c (ps @ qs) s =
     seq (build_platforms os env pkg dest ld c ps) (\<lambda>_. build_platforms os env pkg dest ld c qs) s"
proof (induction ps arbitrary: s)
  case Nil
  show ?case by (simp add: seq_def)
next
  case (Cons p ps)
  show ?case
  proof (cases "platformMap p")
    case (Inl e)
    then show ?thesis by (simp add: seq_def)
  next
    case (Inr m)
    obtain r s1 where b: "build os env pkg dest m ld c s = (r, s1)"
      by (cases "build os env pkg dest m ld c s")
    show ?thesis
      using Inr b Cons.IH [of s1] by (cases r) (simp_all add: seq_def)
  qed
qed

lemma build_platforms_stops:
  "build_platforms os env pkg dest ld c ps s = (Inr (), s1) \<Longrightarrow> platformMap p = Inr m \<Longrightarrow>
   build os env pkg dest m ld c s1 = (Inl e, s2) \<Longrightarrow>
     build_platforms os env pkg dest ld c (ps @ p # qs) s = (Inl e, s2)"
  by (simp add: build_platforms_append seq_def)

lemma main_exits_with_build_failure:
  "build_platforms os env (remove_spaces (INPUT_PACKAGE env)) (remove_spaces (INPUT_DEST env))
     (INPUT_LDFLAGS env) (compressFlag (INPUT_COMPRESS env))
     (split_on CHR '','' (INPUT_PLATFORMS env)) s = (Inl e, s') \<Longrightarrow>
   main os env s = (Inl e, s')"
  by (simp add: main_def Let_def seq_def)

lemma count_remove_spaces: "count_list (remove_spaces p) CHR ''/'' = count_list p CHR ''/''"
  by (induction p) (auto simp: remove_spaces_def)

lemma platformMap_no_separator:
  "count_list p CHR ''/'' = 0 \<Longrightarrow> platformMap p = Inl IndexOutOfRange"
  by (simp add: platformMap_def Let_def index_def length_split_on count_remove_spaces)

lemma platformMap_fields:
  assumes "1 \<le> count_list p CHR ''/''"
  shows "platformMap p =
     Inr [''kernel'' \<mapsto> takeWhile (\<lambda>x. x \<noteq> CHR ''/'') (remove_spaces p),
          ''arch'' \<mapsto> takeWhile (\<lambda>x. x \<noteq> CHR ''/'')
             (drop (Suc (length (takeWhile (\<lambda>x. x \<noteq> CHR ''/'') (remove_spaces p)))) (remove_spaces p))]"
proof -
  define q where "q = remove_spaces p"
  define k where "k = takeWhile (\<lambda>x. x \<noteq> CHR ''/'') q"
  define rest where "rest = drop (Suc (length k)) q"
  have "count_list q CHR ''/'' \<noteq> 0"
    using assms by (simp add: q_def count_remove_spaces)
  then have "CHR ''/'' \<in> set q"
    by (simp add: count_list_0_iff)
  then have 1: "split_on CHR ''/'' q = k # split_on CHR ''/'' rest"
    using split_on_fields [of "CHR ''/''" q] by (simp add: k_def rest_def)
  obtain more where 2: "split_on CHR ''/'' rest = takeWhile (\<lambda>x. x \<noteq> CHR ''/'') rest # more"
    using split_on_fields [of "CHR ''/''" rest] by simp
  show ?thesis
    unfolding platformMap_def Let_def q_def [symmetric] 1 2
    by (simp add: index_def k_def rest_def q_def)
qed

text \<open>
  Claim C1, as amended. A target string without \<open>/\<close> is fatal by a panic, index out of
  range with exit status 2, raised when the loop reaches that target: the targets before it in
  the list have been built by then (the result is that of building them, and the panic if
  they all succeeded). A target string with two or more \<open>/\<close> is not rejected: the kernel is
  the text before the first \<open>/\<close>, the architecture the text between the first and the second,
  the rest is ignored, and the target is built like any other.
\<close>

theorem C1_malformed_targets:
  "(count_list p CHR ''/'' = 0 \<longrightarrow>
      platformMap p = Inl IndexOutOfRange \<and> exit_status IndexOutOfRange = 2 \<and>
      build_platforms os env pkg dest ld c (ps @ p # qs) s =
        (case build_platforms os env pkg dest ld c ps s of
           (Inl e, s') \<Rightarrow> (Inl e, s')
         | (Inr u, s') \<Rightarrow> (Inl IndexOutOfRange, s')))
   \<and> (2 \<le> count_list p CHR ''/'' \<longrightarrow>
      (let q = remove_spaces p;
           k = takeWhile (\<lambda>x. x \<noteq> CHR ''/'') q;
           a = takeWhile (\<lambda>x. x \<noteq> CHR ''/'') (drop (Suc (length k)) q)
       in platformMap p = Inr [''kernel'' \<mapsto> k, ''arch'' \<mapsto> a] \<and>
          build_platforms os env pkg dest ld c (p # qs) s =
            seq (build os env pkg dest [''kernel'' \<mapsto> k, ''arch'' \<mapsto> a] ld c)
              (\<lambda>_. build_platforms os env pkg dest ld c qs) s))"
proof (intro conjI impI)
  assume z: "count_list p CHR ''/'' = 0"
  then show m: "platformMap p = Inl IndexOutOfRange"
    by (rule platformMap_no_separator)
  show "exit_status IndexOutOfRange = 2"
    by (simp add: exit_status_def)
  show "build_platforms os env pkg dest ld c (ps @ p # qs) s =
        (case build_platforms os env pkg dest ld c ps s of
           (Inl e, s') \<Rightarrow> (Inl e, s')
         | (Inr u, s') \<Rightarrow> (Inl IndexOutOfRange, s'))"
    by (simp add: build_platforms_append seq_def m split: prod.splits sum.splits)
next
  assume "2 \<le> count_list p CHR ''/''"
  then have "1 \<le> count_list p CHR ''/''" by simp
  from platformMap_fields [OF this]
  show "let q = remove_spaces p;
           k = takeWhile (\<lambda>x. x \<noteq> CHR ''/'') q;
           a = takeWhile (\<lambda>x. x \<noteq> CHR ''/'') (drop (Suc (length k)) q)
       in platformMap p = Inr [''kernel'' \<mapsto> k, ''arch'' \<mapsto> a] \<and>
          build_platforms os env pkg dest ld c (p # qs) s =
            seq (build os env pkg dest [''kernel'' \<mapsto> k, ''arch'' \<mapsto> a] ld c)
              (\<lambda>_. build_platforms os env pkg dest ld c qs) s"
    by (simp add: Let_def)
qed

theorem C1_witness:
  "platformMap ''darwin'' = Inl IndexOutOfRange \<and>
   platformMap ''linux/amd64/v8'' = Inr [''kernel'' \<mapsto> ''linux'', ''arch'' \<mapsto> ''amd64'']"
  using
    C1_malformed_targets [where p = "''darwin''" and os = fs_os and env = example_env
      and pkg = "[]" and dest = "''build''" and ld = "[]" and c = False and ps = "[]"
      and qs = "[]" and s = "start example_fs"]
    C1_malformed_targets [where p = "''linux/amd64/v8''" and os = fs_os and env = example_env
      and pkg = "[]" and dest = "''build''" and ld = "[]" and c = False and ps = "[]"
      and qs = "[]" and s = "start example_fs"]
  by (simp add: remove_spaces_def Let_def)

text \<open>
  Claim C1 as stated fails twice. With the target list \<open>linux/amd64/v8\<close> the program builds
  \<open>linux/amd64\<close> and ends normally. With \<open>linux/amd64,darwin\<close> it ends by the panic, after
  the compile command of the first target has run.
\<close>

theorem C1_counterexample:
  "fst (main fs_os env_three_fields (start example_fs)) =
     Inr ''::set-output name=files::build build/app-linux-amd64'' \<and>
   fst (main fs_os env_no_separator (start example_fs)) = Inl IndexOutOfRange \<and>
   map cmd_name (trace (snd (main fs_os env_no_separator (start example_fs)))) = [''go'']"
  by code_simp

section \<open>Paths and the file system of the tools\<close>

text \<open>
  Cleaning a path does not change what it resolves to, so the path \<open>build\<close> joins for a
  file resolves to the destination directory followed by the name of the file.
\<close>

lemma split_on_no_sep: "c \<notin> set s \<Longrightarrow> split_on c s = [s]"
  by (induction s) auto

lemma split_on_append_sep: "split_on c (a @ c # b) = split_on c a @ split_on c b"
proof (induction a)
  case Nil
  show ?case by (simp split: list.splits add: split_on_not_Nil)
next
  case (Cons x a)
  then show ?case
    by (cases "split_on c a") (auto split: list.splits simp: split_on_not_Nil)
qed

lemma split_on_elems: "e \<in> set (split_on c s) \<Longrightarrow> c \<notin> set e"
proof (induction s arbitrary: e)
  case Nil
  then show ?case by simp
next
  case (Cons x s)
  then show ?case
    by (cases "split_on c s") (auto split: if_splits simp: split_on_not_Nil)
qed

lemma split_on_Join_strings:
  "es \<noteq> [] \<Longrightarrow> \<forall>e\<in>set es. c \<notin> set e \<Longrightarrow> split_on c (Join_strings es [c]) = es"
proof (induction es "[c]" rule: Join_strings.induct)
  case 1
  then show ?case by simp
next
  case (2 x)
  then show ?case by (simp add: split_on_no_sep)
next
  case (3 x y ys)
  then show ?case by (simp add: split_on_append_sep split_on_no_sep)
qed

lemma path_elems_append: "path_elems (a @ ''/'' @ b) = path_elems a @ path_elems b"
  by (simp add: path_elems_def split_on_append_sep)

lemma path_elems_props:
  "e \<in> set (path_elems p) \<Longrightarrow> is_elem e"
  by (auto simp: path_elems_def is_elem_def dest: split_on_elems)

lemma path_elems_single: "is_elem e \<Longrightarrow> path_elems e = [e]"
  by (simp add: path_elems_def is_elem_def split_on_no_sep)

lemma path_elems_Join_strings:
  assumes "\<forall>e\<in>set es. is_elem e"
  shows "path_elems (Join_strings es ''/'') = es"
proof (cases "es = []")
  case True
  then show ?thesis by (simp add: path_elems_def)
next
  case False
  with assms have "split_on CHR ''/'' (Join_strings es ''/'') = es"
    by (intro split_on_Join_strings) (auto simp: is_elem_def)
  with assms show ?thesis
    by (simp add: path_elems_def is_elem_def filter_id_conv)
qed

lemma path_elems_rooted_Join_strings:
  assumes "\<forall>e\<in>set es. is_elem e"
  shows "path_elems (''/'' @ Join_strings es ''/'') = es"
  using path_elems_append [of "[]" "Join_strings es ''/''"] path_elems_Join_strings [OF assms]
  by (simp add: path_elems_def)


lemma foldl_resolve_plain:
  "\<forall>e\<in>set out. e \<noteq> ''..'' \<Longrightarrow> foldl resolve_step st out = st @ out"
  by (induction out arbitrary: st) (auto simp: resolve_step_def)

lemma foldl_resolve_dotdots:
  "foldl resolve_step st (replicate (Suc n) ''..'') = butlast (foldl resolve_step st (replicate n ''..''))"
proof -
  have "replicate (Suc n) ''..'' = replicate n ''..'' @ [''..'']"
    by (simp add: replicate_append_same)
  then show ?thesis by (simp add: resolve_step_def del: replicate.simps)
qed

lemma clean_step_resolve:
  assumes "\<forall>x\<in>set out. x \<noteq> ''..''" and "r \<longrightarrow> dotdot = 0 \<and> st = []"
    and "clean_step r (dotdot, out) e = (dotdot', out')"
  shows "foldl resolve_step st (replicate dotdot' ''..'' @ out') =
           resolve_step (foldl resolve_step st (replicate dotdot ''..'' @ out)) e
         \<and> (\<forall>x\<in>set out'. x \<noteq> ''..'') \<and> (r \<longrightarrow> dotdot' = 0)"
proof (cases "e = ''..''")
  case False
  with assms show ?thesis
    by (auto simp: clean_step_def resolve_step_def)
next
  case True
  show ?thesis
  proof (cases "out = []")
    case False
    then have "out' = butlast out" "dotdot' = dotdot"
      using assms(3) True by (auto simp: clean_step_def)
    moreover have "\<forall>x\<in>set (butlast out). x \<noteq> ''..''"
      using assms(1) by (auto dest: in_set_butlastD)
    ultimately show ?thesis
      using assms(1,2) True False
      by (simp add: foldl_resolve_plain resolve_step_def butlast_append)
  next
    case out: True
    show ?thesis
    proof (cases r)
      case True
      with assms out \<open>e = ''..''\<close> show ?thesis
        by (auto simp: clean_step_def resolve_step_def)
    next
      case False
      with assms(3) out \<open>e = ''..''\<close> have "out' = []" "dotdot' = Suc dotdot"
        by (auto simp: clean_step_def)
      with out False \<open>e = ''..''\<close> show ?thesis
        using foldl_resolve_dotdots [of st dotdot]
        by (simp add: resolve_step_def del: replicate.simps)
    qed
  qed
qed

lemma clean_fold_resolve:
  assumes "\<forall>x\<in>set out. x \<noteq> ''..''" and "r \<longrightarrow> dotdot = 0 \<and> st = []"
    and "foldl (clean_step r) (dotdot, out) es = (dotdot', out')"
  shows "foldl resolve_step st (replicate dotdot' ''..'' @ out') =
           foldl resolve_step (foldl resolve_step st (replicate dotdot ''..'' @ out)) es"
  using assms
proof (induction es arbitrary: dotdot out)
  case Nil
  then show ?case by simp
next
  case (Cons e es)
  obtain d1 o1 where s: "clean_step r (dotdot, out) e = (d1, o1)"
    by (cases "clean_step r (dotdot, out) e")
  from clean_step_resolve [OF Cons.prems(1,2) s]
  have 1: "foldl resolve_step st (replicate d1 ''..'' @ o1) =
           resolve_step (foldl resolve_step st (replicate dotdot ''..'' @ out)) e"
    and 2: "\<forall>x\<in>set o1. x \<noteq> ''..''" and 3: "r \<longrightarrow> d1 = 0"
    by auto
  from Cons.prems(2) 3 have 4: "r \<longrightarrow> d1 = 0 \<and> st = []" by simp
  from Cons.prems(3) s have "foldl (clean_step r) (d1, o1) es = (dotdot', out')" by simp
  from Cons.IH [OF 2 4 this] 1 show ?case by simp
qed

lemma clean_fold_elems:
  assumes "\<forall>x\<in>set out. is_elem x" and "\<forall>x\<in>set es. is_elem x"
    and "foldl (clean_step r) (dotdot, out) es = (dotdot', out')"
  shows "\<forall>x\<in>set out'. is_elem x"
  using assms
proof (induction es arbitrary: dotdot out)
  case Nil
  then show ?case by simp
next
  case (Cons e es)
  obtain d1 o1 where s: "clean_step r (dotdot, out) e = (d1, o1)"
    by (cases "clean_step r (dotdot, out) e")
  have "\<forall>x\<in>set o1. is_elem x"
    using s Cons.prems(1,2) by (auto simp: clean_step_def split: if_splits dest: in_set_butlastD)
  moreover from Cons.prems(3) s have "foldl (clean_step r) (d1, o1) es = (dotdot', out')" by simp
  ultimately show ?case using Cons.IH Cons.prems(2) by auto
qed


lemma Join_strings_Cons:
  "Join_strings (x # xs) sep = x @ (if xs = [] then [] else sep @ Join_strings xs sep)"
  by (cases xs) simp_all

lemma rooted_append: "a \<noteq> [] \<Longrightarrow> rooted (a @ b) = rooted a"
  by (cases a) (simp_all add: rooted_def)

lemma not_rooted_Join_strings:
  assumes "\<forall>e\<in>set es. is_elem e" and "es \<noteq> []"
  shows "\<not> rooted (Join_strings es ''/'') \<and> Join_strings es ''/'' \<noteq> []"
proof -
  obtain x xs where es: "es = x # xs" using assms(2) by (cases es) auto
  with assms(1) have x: "x \<noteq> []" "CHR ''/'' \<notin> set x" by (auto simp: is_elem_def)
  then have "\<not> rooted x" by (cases x) (auto simp: rooted_def)
  with x show ?thesis
    unfolding es Join_strings_Cons by (simp add: rooted_append)
qed

lemma is_elem_dotdot: "is_elem ''..''"
  by (simp add: is_elem_def)

lemma resolve_empty: "resolve c [] = c"
  by (simp add: resolve_def rooted_def path_elems_def)

lemma Clean_props: "resolve c (Clean p) = resolve c p \<and> Clean p \<noteq> []"
proof (cases "p = []")
  case True
  then show ?thesis
    by (simp add: Clean_def resolve_def rooted_def path_elems_def)
next
  case False
  obtain dotdot out where f: "foldl (clean_step (rooted p)) (0, []) (path_elems p) = (dotdot, out)"
    by (cases "foldl (clean_step (rooted p)) (0, []) (path_elems p)")
  define es where "es = replicate dotdot ''..'' @ out"
  have "\<forall>x\<in>set out. is_elem x"
    using clean_fold_elems [OF _ _ f] path_elems_props by auto
  then have es: "\<forall>e\<in>set es. is_elem e"
    by (auto simp: es_def is_elem_dotdot)
  have c: "Clean p = (if rooted p then ''/'' @ Join_strings es ''/''
                      else if es = [] then ''.'' else Join_strings es ''/'')"
    using False f by (simp add: Clean_def es_def Let_def)
  have r: "foldl resolve_step st es = foldl resolve_step st (path_elems p)"
    if "rooted p \<longrightarrow> st = []" for st
    using clean_fold_resolve [OF _ _ f, of st] that by (simp add: es_def)
  show ?thesis
  proof (cases "rooted p")
    case True
    then have "Clean p = ''/'' @ Join_strings es ''/''" by (simp add: c)
    then show ?thesis
      using True r [of "[]"] path_elems_rooted_Join_strings [OF es]
      by (simp add: resolve_def rooted_def)
  next
    case nr: False
    show ?thesis
    proof (cases "es = []")
      case True
      with nr have "Clean p = ''.''" by (simp add: c)
      then show ?thesis
        using nr r [of c] True by (simp add: resolve_def rooted_def path_elems_def)
    next
      case False
      with nr have "Clean p = Join_strings es ''/''" by (simp add: c)
      then show ?thesis
        using nr r [of c] not_rooted_Join_strings [OF es False] path_elems_Join_strings [OF es]
        by (simp add: resolve_def)
    qed
  qed
qed

lemma Join_not_Nil: "a \<noteq> [] \<or> b \<noteq> [] \<Longrightarrow> Join a b \<noteq> []"
  by (auto simp: Join_def Clean_props)

lemma resolve_Join:
  "resolve c (Join a b) =
     (if a = [] then resolve c b else foldl resolve_step (resolve c a) (path_elems b))"
proof (cases "a = []")
  case True
  then show ?thesis by (simp add: Join_def Clean_props resolve_empty)
next
  case False
  then have "resolve c (Join a b) = resolve c (a @ ''/'' @ b)"
    by (simp add: Join_def Clean_props)
  also have "\<dots> = foldl resolve_step (resolve c a) (path_elems b)"
    using False rooted_append [of a "''/'' @ b"] path_elems_append [of a b]
    by (simp add: resolve_def)
  finally show ?thesis using False by simp
qed

lemma resolve_Join_elem:
  "a \<noteq> [] \<Longrightarrow> is_elem f \<Longrightarrow> f \<noteq> ''..'' \<Longrightarrow> resolve c (Join a f) = resolve c a @ [f]"
  by (simp add: resolve_Join path_elems_single resolve_step_def)


lemma update_entry_found:
  "map_of es c = Some n \<Longrightarrow> put_file cs n = Some n' \<Longrightarrow>
     \<exists>es'. update_entry c cs es = Some es' \<and> map_of es' c = Some n'"
  by (induction es) (auto split: if_splits)

lemma put_file_in_dir:
  "lookup D t = Some (Dir es) \<Longrightarrow> f \<notin> fst ` set es \<Longrightarrow>
     \<exists>t'. put_file (D @ [f]) t = Some t' \<and>
          lookup D t' = Some (Dir (insort_key fst (f, File) es))"
proof (induction D arbitrary: t)
  case Nil
  then show ?case by simp
next
  case (Cons c cs)
  from Cons.prems(1) obtain es0 where t: "t = Dir es0"
    by (cases t) auto
  with Cons.prems(1) obtain n where n: "map_of es0 c = Some n" "lookup cs n = Some (Dir es)"
    by (auto split: option.splits)
  from Cons.IH [OF n(2) Cons.prems(2)]
  obtain n' where n': "put_file (cs @ [f]) n = Some n'"
    "lookup cs n' = Some (Dir (insort_key fst (f, File) es))"
    by blast
  from update_entry_found [OF n(1) n'(1)]
  obtain es1 where es1: "update_entry c (cs @ [f]) es0 = Some es1" "map_of es1 c = Some n'"
    by blast
  from n(1) have "c \<in> fst ` set es0"
    by (metis map_of_eq_None_iff option.distinct(1))
  then show ?case
    using t es1 n'(2) by simp
qed

lemma less_common_prefix: "(b @ x < b @ y) = (x < (y :: string))"
  by (induction b) simp_all

lemma binaries_ordered: "base @ ''-linux-amd64'' < base @ ''-windows-arm64.exe''"
  by (simp add: less_common_prefix)

lemma is_elem_binary:
  "CHR ''/'' \<notin> set base \<Longrightarrow> is_elem (base @ ''-linux-amd64'') \<and> base @ ''-linux-amd64'' \<noteq> ''..''"
  "CHR ''/'' \<notin> set base \<Longrightarrow>
     is_elem (base @ ''-windows-arm64.exe'') \<and> base @ ''-windows-arm64.exe'' \<noteq> ''..''"
  by (auto simp: is_elem_def dest: arg_cong [where f = length])

lemma fs_run_go:
  "fs_run (buildCmd env ld out pkgPath k a) w = write_file (resolve (fs_cwd w) out) w"
  by (simp add: fs_run_def buildCmd_def Command_def resolve_empty)

lemma walk_two_files:
  "Walk (Dir [(f1, File), (f2, File)]) root collect [] =
     (NoError, [root, Join root f1, Join root f2])"
  by (simp add: Walk_def collect_def)

section \<open>The final phase\<close>

lemma walk_collect_no_error:
  "fst (walk collect path t acc) = NoError"
  "fst (walk_entries collect path es acc) = NoError"
proof (induction collect path t acc and collect path es acc rule: walk_walk_entries.induct)
qed (auto simp: collect_def split: prod.splits walk_return.splits)

text \<open>
  The function \<open>main\<close> gives to \<open>Walk\<close> returns no error whatever it is called with, so
  \<open>Walk\<close> returns none and the exit after the walk cannot be taken.
\<close>

lemma Walk_collect: "Walk t root collect acc = (r, files) \<Longrightarrow> r = NoError"
proof -
  assume W: "Walk t root collect acc = (r, files)"
  obtain r' a where w: "walk collect root t acc = (r', a)"
    by (cases "walk collect root t acc")
  with walk_collect_no_error(1) [of root t acc] have "r' = NoError" by simp
  with w W show ?thesis by (simp add: Walk_def)
qed

lemma build_never_WalkFailed: "fst (build os env pkg dest m ld c s) \<noteq> Inl WalkFailed"
  by (simp add: build_eq Let_def seq_stage_file seq_run_or_exit run_or_exit_eq)

lemma build_platforms_never_WalkFailed:
  "fst (build_platforms os env pkg dest ld c ps s) \<noteq> Inl WalkFailed"
proof (induction ps arbitrary: s)
  case Nil
  show ?case by simp
next
  case (Cons p ps)
  show ?case
  proof (cases "platformMap p")
    case (Inl e)
    then have "e = IndexOutOfRange"
      by (auto simp: platformMap_def Let_def index_def split: if_splits)
    with Inl show ?thesis by simp
  next
    case (Inr m)
    obtain r s1 where e: "build os env pkg dest m ld c s = (r, s1)"
      by (cases "build os env pkg dest m ld c s")
    with build_never_WalkFailed [of os env pkg dest m ld c s] have "r \<noteq> Inl WalkFailed" by simp
    with Inr e Cons.IH [of s1] show ?thesis
      by (cases r) (simp_all add: seq_def)
  qed
qed

lemma main_never_WalkFailed:
  fixes os :: "'w os_iface"
  shows "fst (main os env s) \<noteq> Inl WalkFailed"
proof -
  define pkg where "pkg = remove_spaces (INPUT_PACKAGE env)"
  define dest where "dest = remove_spaces (INPUT_DEST env)"
  define bp where "bp = build_platforms os env pkg dest (INPUT_LDFLAGS env)
     (compressFlag (INPUT_COMPRESS env)) (split_on CHR '','' (INPUT_PLATFORMS env))"
  define final :: "unit \<Rightarrow> ('w, string) step" where "final = (\<lambda>_ s.
        case Walk (os_tree os (world s) dest) dest collect [] of
          (err, files) \<Rightarrow>
            if err \<noteq> NoError then (Inl WalkFailed, s)
            else (Inr (''::set-output name=files::'' @ Join_strings files '' ''), s))"
  have m: "main os env s = seq bp (\<lambda>_. seq (run_or_exit os (Command ''ls'' [''-alh'', dest]) LsFailed) final) s"
    by (simp add: main_def Let_def bp_def final_def pkg_def dest_def)
  have f: "fst (final u s2) \<noteq> Inl WalkFailed" for u s2
    by (auto simp: final_def split: prod.splits dest: Walk_collect)
  obtain r1 s1 where b: "bp s = (r1, s1)" by (cases "bp s")
  have "r1 \<noteq> Inl WalkFailed"
    using build_platforms_never_WalkFailed [of os env pkg dest "INPUT_LDFLAGS env"
        "compressFlag (INPUT_COMPRESS env)" "split_on CHR '','' (INPUT_PLATFORMS env)" s] b
    by (simp add: bp_def)
  then show ?thesis
    using b f by (cases r1) (simp_all add: m seq_def run_or_exit_eq)
qed

text \<open>
  Claim C6 at a failing input: the destination directory holds a directory that cannot be
  read. \<open>ls\<close> lists the destination directory, the walk meets the read error (a walk whose
  function returned the error it is given would end with it), and \<open>main\<close> still ends
  normally, printing the unreadable directory among the files.
\<close>

theorem C6_walk_error_not_fatal:
  "fst (Walk (fs_tree unreadable_fs ''build'') ''build''
          (\<lambda>path err files. (case err of None \<Rightarrow> NoError | Some e \<Rightarrow> Err e, files @ [path])) [])
     = Err ReadDirError \<and>
   fst (main fs_os example_env (start unreadable_fs)) =
     Inr ''::set-output name=files::build build/app-linux-amd64 build/app-windows-arm64.exe build/cache''"
  by code_simp

text \<open>
  Claim C5, as amended. In the scenario with the target list \<open>linux/amd64,windows/arm64\<close>
  and compression off, run in the workspace directory on a file system where the compile step
  writes its output file, with a base name without slash and an empty destination directory
  given by a relative path: the destination directory ends up containing exactly the two
  files \<open>{base}-linux-amd64\<close> and \<open>{base}-windows-arm64.exe\<close>, and the printed list names
  three paths: the destination directory itself, then these two files.
\<close>

theorem C5_end_to_end:
  fixes w :: fs
  assumes platforms: "INPUT_PLATFORMS env = ''linux/amd64,windows/arm64''"
    and compress: "\<not> compressFlag (INPUT_COMPRESS env)"
    and base: "CHR ''/'' \<notin> set (INPUT_NAME env)"
    and dest: "dest = remove_spaces (INPUT_DEST env)" "dest \<noteq> []" "\<not> rooted dest"
    and ws: "resolve (fs_cwd w) (GITHUB_WORKSPACE env) = fs_cwd w"
    and empty: "lookup (resolve (fs_cwd w) dest) (fs_root w) = Some (Dir [])"
  shows
    "(let f1 = INPUT_NAME env @ ''-linux-amd64'';
          f2 = INPUT_NAME env @ ''-windows-arm64.exe''
      in fst (main fs_os env (start w)) =
           Inr (''::set-output name=files::'' @ dest @ '' '' @ Join dest f1 @ '' '' @ Join dest f2) \<and>
         lookup (resolve (fs_cwd w) dest) (fs_root (world (snd (main fs_os env (start w))))) =
           Some (Dir [(f1, File), (f2, File)]))"
proof -
  define f1 where "f1 = INPUT_NAME env @ ''-linux-amd64''"
  define f2 where "f2 = INPUT_NAME env @ ''-windows-arm64.exe''"
  define D where "D = resolve (fs_cwd w) dest"
  define J where "J = Join (GITHUB_WORKSPACE env) dest"
  define pkg where "pkg = remove_spaces (INPUT_PACKAGE env)"
  define ld where "ld = INPUT_LDFLAGS env"
  define go1 where "go1 = buildCmd env ld (Join J f1) (packagePath pkg) ''linux'' ''amd64''"
  define go2 where "go2 = buildCmd env ld (Join J f2) (packagePath pkg) ''windows'' ''arm64''"
  define ls where "ls = Command ''ls'' [''-alh'', dest]"
  have nd: "resolve (fs_cwd w) dest = foldl resolve_step (fs_cwd w) (path_elems dest)"
    using dest(3) by (simp add: resolve_def)
  have J: "J \<noteq> []" "resolve (fs_cwd w) J = D"
    using dest(2) by (simp_all add: J_def Join_not_Nil resolve_Join D_def ws nd)
  have p1: "resolve (fs_cwd w) (Join J f1) = D @ [f1]"
    using resolve_Join_elem [of J f1 "fs_cwd w"] J is_elem_binary(1) [OF base]
    by (simp add: f1_def)
  have p2: "resolve (fs_cwd w) (Join J f2) = D @ [f2]"
    using resolve_Join_elem [of J f2 "fs_cwd w"] J is_elem_binary(2) [OF base]
    by (simp add: f2_def)
  from put_file_in_dir [of D "fs_root w" "[]" f1] empty
  obtain t1 where t1: "put_file (D @ [f1]) (fs_root w) = Some t1"
    "lookup D t1 = Some (Dir [(f1, File)])"
    by (auto simp: D_def)
  have "f2 \<noteq> f1"
    using binaries_ordered [of "INPUT_NAME env"] by (simp add: f1_def f2_def)
  with put_file_in_dir [of D t1 "[(f1, File)]" f2] t1(2)
  obtain t2 where t2: "put_file (D @ [f2]) t1 = Some t2"
    "lookup D t2 = Some (Dir (insort_key fst (f2, File) [(f1, File)]))"
    by auto
  have "\<not> f2 \<le> f1"
    using binaries_ordered [of "INPUT_NAME env"] by (simp add: f1_def f2_def not_le)
  with t2(2) have t2': "lookup D t2 = Some (Dir [(f1, File), (f2, File)])"
    by simp
  define w1 where "w1 = w\<lparr>fs_root := t1\<rparr>"
  define w2 where "w2 = w\<lparr>fs_root := t2\<rparr>"
  have r1: "os_run fs_os go1 w = (True, w1)"
    by (simp add: fs_os_def go1_def fs_run_go p1 write_file_def t1 w1_def)
  have r2: "os_run fs_os go2 w1 = (True, w2)"
    by (simp add: fs_os_def go2_def fs_run_go w1_def p2 write_file_def t2 w2_def)
  have r3: "os_run fs_os ls w2 = (True, w2)"
    using dest t2' by (simp add: fs_os_def ls_def fs_run_def Command_def resolve_empty fs_tree_def w2_def D_def)
  have tree: "os_tree fs_os w2 dest = Dir [(f1, File), (f2, File)]"
    using dest t2' by (simp add: fs_os_def fs_tree_def w2_def D_def)
  have split: "split_on CHR '','' (INPUT_PLATFORMS env) = [''linux/amd64'', ''windows/arm64'']"
    unfolding platforms by code_simp
  have m1: "platformMap ''linux/amd64'' = Inr [''kernel'' \<mapsto> ''linux'', ''arch'' \<mapsto> ''amd64'']"
    using platformMap_fields [of "''linux/amd64''"] by (simp add: remove_spaces_def)
  have m2: "platformMap ''windows/arm64'' = Inr [''kernel'' \<mapsto> ''windows'', ''arch'' \<mapsto> ''arm64'']"
    using platformMap_fields [of "''windows/arm64''"] by (simp add: remove_spaces_def)
  have b1: "build fs_os env pkg dest [''kernel'' \<mapsto> ''linux'', ''arch'' \<mapsto> ''amd64''] ld False s =
      run_or_exit fs_os go1 BuildFailed s" for s
    by (simp add: build_no_compress map_get_def buildFileName_def go1_def J_def f1_def)
  have b2: "build fs_os env pkg dest [''kernel'' \<mapsto> ''windows'', ''arch'' \<mapsto> ''arm64''] ld False s =
      run_or_exit fs_os go2 BuildFailed s" for s
    by (simp add: build_no_compress map_get_def buildFileName_def go2_def J_def f2_def)
  have loop: "build_platforms fs_os env pkg dest ld False [''linux/amd64'', ''windows/arm64''] (start w) =
      (Inr (), \<lparr>world = w2, trace = [go1, go2]\<rparr>)"
    by (simp add: m1 m2 b1 b2 seq_def run_or_exit_eq r1 r2 after_def start_def)
  have m: "main fs_os env (start w) =
      (Inr (''::set-output name=files::'' @ Join_strings [dest, Join dest f1, Join dest f2] '' ''),
       \<lparr>world = w2, trace = [go1, go2, ls]\<rparr>)"
    using compress
    by (simp add: main_def Let_def split dest(1) [symmetric] pkg_def [symmetric] ld_def [symmetric]
        loop seq_def ls_def [symmetric] run_or_exit_eq r3 after_def tree walk_two_files
        del: build_platforms.simps)
  show ?thesis
    unfolding Let_def f1_def [symmetric] f2_def [symmetric] D_def [symmetric]
    using t2' by (simp add: m w2_def)
qed


theorem C5_witness:
  "fst (main fs_os example_env (start example_fs)) =
     Inr ''::set-output name=files::build build/app-linux-amd64 build/app-windows-arm64.exe'' \<and>
   lookup [''github'', ''workspace'', ''build'']
     (fs_root (world (snd (main fs_os example_env (start example_fs))))) =
     Some (Dir [(''app-linux-amd64'', File), (''app-windows-arm64.exe'', File)])"
proof -
  have h1: "INPUT_PLATFORMS example_env = ''linux/amd64,windows/arm64''"
    by (simp add: example_env_def)
  have h2: "\<not> compressFlag (INPUT_COMPRESS example_env)"
    by (simp add: example_env_def compressFlag_def ToLower_def)
  have h3: "CHR ''/'' \<notin> set (INPUT_NAME example_env)"
    by (simp add: example_env_def)
  have h4: "''build'' = remove_spaces (INPUT_DEST example_env)" "''build'' \<noteq> []"
    "\<not> rooted ''build''"
    by (simp_all add: example_env_def remove_spaces_def rooted_def)
  have h5: "resolve (fs_cwd example_fs) (GITHUB_WORKSPACE example_env) = fs_cwd example_fs"
    by code_simp
  have d: "resolve (fs_cwd example_fs) ''build'' = [''github'', ''workspace'', ''build'']"
    by code_simp
  have h6: "lookup (resolve (fs_cwd example_fs) ''build'') (fs_root example_fs) = Some (Dir [])"
    unfolding d by (simp add: example_fs_def)
  have j: "Join ''build'' ''app-linux-amd64'' = ''build/app-linux-amd64''"
    "Join ''build'' ''app-windows-arm64.exe'' = ''build/app-windows-arm64.exe''"
    by code_simp+
  have n: "INPUT_NAME example_env = ''app''"
    by (simp add: example_env_def)
  from C5_end_to_end [OF h1 h2 h3 h4 h5 h6]
  show ?thesis
    by (simp add: Let_def n d j)
qed

text \<open>
  Claim C5 as stated fails in its last part: in the scenario, run in the example workspace
  with an empty destination directory \<open>build\<close>, the printed list names three paths, the
  destination directory itself first, and not only the two binaries.
\<close>

theorem C5_counterexample:
  "fst (main fs_os example_env (start example_fs)) =
     Inr ''::set-output name=files::build build/app-linux-amd64 build/app-windows-arm64.exe'' \<and>
   fst (main fs_os example_env (start example_fs)) \<noteq>
     Inr (''::set-output name=files::'' @
          Join_strings [''build/app-linux-amd64'', ''build/app-windows-arm64.exe''] '' '')"
  by code_simp

end
